theory Spec2Isabelle
  imports Main "HOL-Library.Word" "HOL-Library.Signed_Division" "HOL-Library.Sublist"
begin

unbundle bit_operations_syntax

section \<open>Strings and the library helpers used by main.go\<close>

text \<open>
  Go strings are byte sequences; they are modelled as \<open>string\<close> (a list of 8-bit
  characters).  \<open>LF\<close> is the byte 0x0A and \<open>CR\<close> the byte 0x0D.
\<close>

abbreviation LF :: char where "LF \<equiv> CHR 0x0A"
abbreviation CR :: char where "CR \<equiv> CHR 0x0D"

text \<open>\<open>strings.TrimSuffix(s, suffix)\<close>: \<open>s\<close> without the trailing \<open>suffix\<close> when it
  ends with it, and \<open>s\<close> unchanged otherwise.\<close>

definition TrimSuffix :: "string \<Rightarrow> string \<Rightarrow> string" where
  "TrimSuffix s suf = (if suffix suf s then take (length s - length suf) s else s)"

text \<open>
  \<open>strings.TrimSpace(s)\<close> of the Go standard library removes all leading and trailing
  white space, as defined by \<open>unicode.IsSpace\<close>, from a UTF-8 encoded string.  The
  white-space code points are U+0009..U+000D, U+0020, U+0085, U+00A0, U+1680,
  U+2000..U+200A, U+2028, U+2029, U+202F, U+205F and U+3000; \<open>spaceEncodings\<close> lists
  their UTF-8 encodings.  A byte sequence that is not one of these encodings decodes to a
  rune that is not white space, and trimming stops there.
\<close>

definition spaceEncodings :: "string list" where
  "spaceEncodings =
    [[CHR 0x09], [CHR 0x0A], [CHR 0x0B], [CHR 0x0C], [CHR 0x0D], [CHR 0x20],
     [CHR 0xC2, CHR 0x85], [CHR 0xC2, CHR 0xA0],
     [CHR 0xE1, CHR 0x9A, CHR 0x80],
     [CHR 0xE2, CHR 0x80, CHR 0x80], [CHR 0xE2, CHR 0x80, CHR 0x81],
     [CHR 0xE2, CHR 0x80, CHR 0x82], [CHR 0xE2, CHR 0x80, CHR 0x83],
     [CHR 0xE2, CHR 0x80, CHR 0x84], [CHR 0xE2, CHR 0x80, CHR 0x85],
     [CHR 0xE2, CHR 0x80, CHR 0x86], [CHR 0xE2, CHR 0x80, CHR 0x87],
     [CHR 0xE2, CHR 0x80, CHR 0x88], [CHR 0xE2, CHR 0x80, CHR 0x89],
     [CHR 0xE2, CHR 0x80, CHR 0x8A],
     [CHR 0xE2, CHR 0x80, CHR 0xA8], [CHR 0xE2, CHR 0x80, CHR 0xA9],
     [CHR 0xE2, CHR 0x80, CHR 0xAF], [CHR 0xE2, CHR 0x81, CHR 0x9F],
     [CHR 0xE3, CHR 0x80, CHR 0x80]]"

definition leadingSpace :: "string \<Rightarrow> nat" where
  \<comment> \<open>width in bytes of the white-space rune the string starts with, 0 when there is none\<close>
  "leadingSpace s = (case find (\<lambda>e. prefix e s) spaceEncodings of None \<Rightarrow> 0 | Some e \<Rightarrow> length e)"

definition trailingSpace :: "string \<Rightarrow> nat" where
  \<comment> \<open>width in bytes of the white-space rune the string ends with, 0 when there is none\<close>
  "trailingSpace s = (case find (\<lambda>e. suffix e s) spaceEncodings of None \<Rightarrow> 0 | Some e \<Rightarrow> length e)"

function TrimLeftSpace :: "string \<Rightarrow> string" where
  "TrimLeftSpace s = (if leadingSpace s = 0 then s else TrimLeftSpace (drop (leadingSpace s) s))"
  by pat_completeness auto
termination
proof (relation "measure length")
  fix s :: string
  assume "leadingSpace s \<noteq> 0"
  moreover have "leadingSpace s \<le> length s"
    by (auto simp: leadingSpace_def find_Some_iff prefix_def split: option.splits)
  ultimately show "(drop (leadingSpace s) s, s) \<in> measure length" by simp
qed simp

function TrimRightSpace :: "string \<Rightarrow> string" where
  "TrimRightSpace s =
     (if trailingSpace s = 0 then s else TrimRightSpace (take (length s - trailingSpace s) s))"
  by pat_completeness auto
termination
proof (relation "measure length")
  fix s :: string
  assume "trailingSpace s \<noteq> 0"
  moreover have "trailingSpace s \<le> length s"
    by (auto simp: trailingSpace_def find_Some_iff suffix_def split: option.splits)
  ultimately show "(take (length s - trailingSpace s) s, s) \<in> measure length" by simp
qed simp

declare TrimLeftSpace.simps [simp del] TrimRightSpace.simps [simp del]

definition TrimSpace :: "string \<Rightarrow> string" where
  "TrimSpace s = TrimRightSpace (TrimLeftSpace s)"

section \<open>File system\<close>

text \<open>
  The files \<open>harn\<close> reads and writes.  \<open>contents\<close> gives the bytes stored at a path,
  \<open>None\<close> where nothing exists.  The other fields say which system calls fail at a path
  and with which message: \<open>statErr\<close> an \<open>os.Stat\<close> failure other than "does not exist"
  (permission denied on a directory of the path, for instance), \<open>openErr\<close> a failure of
  \<open>os.Open\<close> on an existing file, \<open>createErr\<close> a failure of \<open>os.Create\<close>, and \<open>writeErr\<close>
  a failure of \<open>WriteString\<close> after the file was created or truncated.
\<close>

record filesys =
  contents :: "string \<Rightarrow> string option"
  statErr :: "string \<Rightarrow> string option"
  openErr :: "string \<Rightarrow> string option"
  createErr :: "string \<Rightarrow> string option"
  writeErr :: "string \<Rightarrow> string option"

datatype statResult = StatOk | StatNotExist | StatError string

definition osStat :: "filesys \<Rightarrow> string \<Rightarrow> statResult" where
  "osStat fs name =
     (case statErr fs name of
        Some e \<Rightarrow> StatError e
      | None \<Rightarrow> (case contents fs name of None \<Rightarrow> StatNotExist | Some _ \<Rightarrow> StatOk))"

text \<open>\<open>os.IsNotExist(err)\<close> on the error of \<open>os.Stat\<close>.\<close>

definition IsNotExist :: "statResult \<Rightarrow> bool" where
  "IsNotExist r = (r = StatNotExist)"

definition osOpen :: "filesys \<Rightarrow> string \<Rightarrow> string + string" where
  "osOpen fs name =
     (case contents fs name of
        None \<Rightarrow> Inl (''open '' @ name @ '': no such file or directory'')
      | Some d \<Rightarrow> (case openErr fs name of Some e \<Rightarrow> Inl e | None \<Rightarrow> Inr d))"

subsection \<open>The line scanner\<close>

text \<open>
  \<open>bufio.Scanner\<close> with its default split function \<open>ScanLines\<close>: each token is the
  text up to the next LF, without the LF and without one trailing CR (\<open>dropCR\<close>); data
  after the last LF is a final token when it is not empty.  A line of
  \<open>MaxScanTokenSize\<close> bytes or more does not fit the scanner's buffer: scanning stops
  with \<open>ErrTooLong\<close>.
\<close>

definition dropCR :: "string \<Rightarrow> string" where
  "dropCR data = (if data \<noteq> [] \<and> last data = CR then butlast data else data)"

definition MaxScanTokenSize :: nat where
  "MaxScanTokenSize = 64 * 1024"

definition ErrTooLong :: string where
  "ErrTooLong = ''bufio.Scanner: token too long''"

function scanLines :: "string \<Rightarrow> string + string list" where
  "scanLines data =
     (if data = [] then Inr []
      else let line = takeWhile (\<lambda>c. c \<noteq> LF) data;
               rest = dropWhile (\<lambda>c. c \<noteq> LF) data
           in if MaxScanTokenSize \<le> length line then Inl ErrTooLong
              else (case rest of
                      [] \<Rightarrow> Inr [dropCR line]
                    | _ # rest' \<Rightarrow>
                        (case scanLines rest' of
                           Inl e \<Rightarrow> Inl e
                         | Inr tokens \<Rightarrow> Inr (dropCR line # tokens))))"
  by pat_completeness auto
termination
proof (relation "measure length")
  fix data :: string and line rest :: string and c :: char and rest' :: string
  assume "rest = dropWhile (\<lambda>c. c \<noteq> LF) data" and "rest = c # rest'"
  then have "length (c # rest') \<le> length data"
    by (metis length_dropWhile_le)
  then show "(rest', data) \<in> measure length" by simp
qed simp

declare scanLines.simps [simp del]

subsection \<open>readFile and writeFile (main.go, lines 231-264)\<close>

definition readFile :: "filesys \<Rightarrow> string \<Rightarrow> string + string" where
  "readFile fs filename =
     (case osOpen fs filename of
        Inl e \<Rightarrow> Inl e
      | Inr data \<Rightarrow>
          (case scanLines data of
             Inl e \<Rightarrow> Inl e
           | Inr tokens \<Rightarrow> Inr (TrimSuffix (concat (map (\<lambda>t. t @ [LF]) tokens)) [LF])))"

definition writeFile :: "filesys \<Rightarrow> string \<Rightarrow> string \<Rightarrow> filesys \<times> string option" where
  "writeFile fs filename content =
     (case createErr fs filename of
        Some e \<Rightarrow> (fs, Some e)
      | None \<Rightarrow>
          (case writeErr fs filename of
             Some e \<Rightarrow> (fs\<lparr>contents := (contents fs)(filename \<mapsto> [])\<rparr>, Some e)
           | None \<Rightarrow> (fs\<lparr>contents := (contents fs)(filename \<mapsto> content)\<rparr>, None)))"

section \<open>SHA-256 and hexadecimal encoding\<close>

text \<open>
  \<open>crypto/sha256\<close> of the Go standard library (FIPS 180-4): the message is padded with
  the byte 0x80, zero bytes up to 56 modulo 64 and its length in bits as a 64-bit
  big-endian number, and is consumed in blocks of 64 bytes.
\<close>

type_synonym u32 = "32 word"

type_synonym digest = "u32 \<times> u32 \<times> u32 \<times> u32 \<times> u32 \<times> u32 \<times> u32 \<times> u32"

definition K256 :: "u32 list" where
  "K256 =
    [0x428A2F98, 0x71374491, 0xB5C0FBCF, 0xE9B5DBA5, 0x3956C25B, 0x59F111F1, 0x923F82A4, 0xAB1C5ED5,
     0xD807AA98, 0x12835B01, 0x243185BE, 0x550C7DC3, 0x72BE5D74, 0x80DEB1FE, 0x9BDC06A7, 0xC19BF174,
     0xE49B69C1, 0xEFBE4786, 0x0FC19DC6, 0x240CA1CC, 0x2DE92C6F, 0x4A7484AA, 0x5CB0A9DC, 0x76F988DA,
     0x983E5152, 0xA831C66D, 0xB00327C8, 0xBF597FC7, 0xC6E00BF3, 0xD5A79147, 0x06CA6351, 0x14292967,
     0x27B70A85, 0x2E1B2138, 0x4D2C6DFC, 0x53380D13, 0x650A7354, 0x766A0ABB, 0x81C2C92E, 0x92722C85,
     0xA2BFE8A1, 0xA81A664B, 0xC24B8B70, 0xC76C51A3, 0xD192E819, 0xD6990624, 0xF40E3585, 0x106AA070,
     0x19A4C116, 0x1E376C08, 0x2748774C, 0x34B0BCB5, 0x391C0CB3, 0x4ED8AA4A, 0x5B9CCA4F, 0x682E6FF3,
     0x748F82EE, 0x78A5636F, 0x84C87814, 0x8CC70208, 0x90BEFFFA, 0xA4506CEB, 0xBEF9A3F7, 0xC67178F2]"

definition init256 :: digest where
  "init256 = (0x6A09E667, 0xBB67AE85, 0x3C6EF372, 0xA54FF53A,
              0x510E527F, 0x9B05688C, 0x1F83D9AB, 0x5BE0CD19)"

definition byte :: "'a::len word \<Rightarrow> char" where
  \<comment> \<open>the conversion \<open>byte(v)\<close>: the low eight bits\<close>
  "byte v = char_of (unat (ucast v :: 8 word))"

definition beUint32 :: "string \<Rightarrow> u32" where
  \<comment> \<open>the first four bytes as a big-endian 32-bit number\<close>
  "beUint32 p = push_bit 24 (of_nat (of_char (p ! 0))) OR push_bit 16 (of_nat (of_char (p ! 1)))
                OR push_bit 8 (of_nat (of_char (p ! 2))) OR of_nat (of_char (p ! 3))"

definition bePutUint32 :: "u32 \<Rightarrow> string" where
  "bePutUint32 v = map (\<lambda>i. byte (drop_bit (8 * (3 - i)) v)) [0..<4]"

definition bePutUint64 :: "64 word \<Rightarrow> string" where
  "bePutUint64 v = map (\<lambda>i. byte (drop_bit (8 * (7 - i)) v)) [0..<8]"

fun schedule :: "u32 list \<Rightarrow> nat \<Rightarrow> u32 list" where
  "schedule w 0 = w"
| "schedule w (Suc n) =
     (let i = length w;
          v1 = w ! (i - 2);
          t1 = word_rotr 17 v1 XOR word_rotr 19 v1 XOR drop_bit 10 v1;
          v2 = w ! (i - 15);
          t2 = word_rotr 7 v2 XOR word_rotr 18 v2 XOR drop_bit 3 v2
      in schedule (w @ [t1 + w ! (i - 7) + t2 + w ! (i - 16)]) n)"

fun round256 :: "digest \<Rightarrow> u32 \<times> u32 \<Rightarrow> digest" where
  "round256 (a, b, c, d, e, f, g, h) (k, w) =
     (let t1 = h + (word_rotr 6 e XOR word_rotr 11 e XOR word_rotr 25 e)
                 + ((e AND f) XOR (NOT e AND g)) + k + w;
          t2 = (word_rotr 2 a XOR word_rotr 13 a XOR word_rotr 22 a)
                 + ((a AND b) XOR (a AND c) XOR (b AND c))
      in (t1 + t2, a, b, c, d + t1, e, f, g))"

fun addDigest :: "digest \<Rightarrow> digest \<Rightarrow> digest" where
  "addDigest (h0, h1, h2, h3, h4, h5, h6, h7) (a, b, c, d, e, f, g, h) =
     (h0 + a, h1 + b, h2 + c, h3 + d, h4 + e, h5 + f, h6 + g, h7 + h)"

definition block256 :: "digest \<Rightarrow> string \<Rightarrow> digest" where
  "block256 hs p =
     (let w = schedule (map (\<lambda>i. beUint32 (drop (4 * i) p)) [0..<16]) 48
      in addDigest hs (foldl round256 hs (zip K256 w)))"

definition pad256 :: "string \<Rightarrow> string" where
  "pad256 m =
     (let len = length m;
          t = (if len mod 64 < 56 then 56 - len mod 64 else 64 + 56 - len mod 64)
      in m @ CHR 0x80 # replicate (t - 1) (CHR 0x00) @ bePutUint64 (push_bit 3 (of_nat len)))"

definition Sum256 :: "string \<Rightarrow> string" where
  "Sum256 m =
     (let p = pad256 m;
          blocks = map (\<lambda>i. take 64 (drop (64 * i) p)) [0..<length p div 64]
      in case foldl block256 init256 blocks of
           (h0, h1, h2, h3, h4, h5, h6, h7) \<Rightarrow>
             concat (map bePutUint32 [h0, h1, h2, h3, h4, h5, h6, h7]))"

text \<open>\<open>hex.EncodeToString\<close>: two lower-case hexadecimal digits for each byte.\<close>

definition hextable :: string where
  "hextable = ''0123456789abcdef''"

definition EncodeToString :: "string \<Rightarrow> string" where
  "EncodeToString src =
     concat (map (\<lambda>b. [hextable ! (of_char b div 16), hextable ! (of_char b mod 16)]) src)"

section \<open>Test case resolver (main.go, lines 55-58 and 82)\<close>

definition expectedExt :: "bool \<Rightarrow> string" where
  "expectedExt useHash = (if useHash then ''.hash'' else ''.out'')"

definition outputFile :: "string \<Rightarrow> bool \<Rightarrow> string" where
  "outputFile inputFile useHash = TrimSuffix inputFile ''.in'' @ expectedExt useHash"

section \<open>Program executor (main.go, lines 181-229)\<close>

text \<open>
  \<open>time.Duration\<close> is a signed 64-bit count of nanoseconds.
\<close>

type_synonym duration = "64 word"

text \<open>Division of signed 64-bit integers truncates towards zero.\<close>

definition divDuration :: "duration \<Rightarrow> duration \<Rightarrow> duration" where
  "divDuration a b = word_of_int (sint a sdiv sint b)"

text \<open>
  When the deadline of the context expired, relative to the run of the child and to the
  label \<open>errHandle\<close>, where \<open>ctx.Err()\<close> is inspected: not before \<open>errHandle\<close> is
  reached (\<open>Unexpired\<close>); only after the child had exited, or after the spawn or stream
  error had occurred, but before \<open>errHandle\<close> is reached (\<open>ExpiredLater\<close>: \<open>cmd.Wait\<close>
  returns only when the output pipe is closed, which a process started by the child can
  delay); or first, while the child was still running or before it was started
  (\<open>ExpiredFirst\<close>).
\<close>

datatype expiry = Unexpired | ExpiredLater | ExpiredFirst

text \<open>
  What running the child process does, as \<open>executeProgram\<close> observes it: the errors
  of \<open>cmd.StdoutPipe\<close>, of \<open>cmd.Start\<close>, of copying the standard output stream and of
  \<open>cmd.Wait\<close> (a non-zero exit status, a kill), the bytes the child wrote to its
  standard output, when the deadline expired, and \<open>time.Since(start)\<close> at the label
  \<open>errHandle\<close>.  The child is taken not to touch the files of \<open>harn\<close>: the file
  system changes through \<open>writeFile\<close> only.
\<close>

record proc =
  pipeErr :: "string option"
  startErr :: "string option"
  copyErr :: "string option"
  waitErr :: "string option"
  stdout :: string
  deadline :: expiry
  elapsed :: duration

text \<open>\<open>ctx.Err() == context.DeadlineExceeded\<close> at the label \<open>errHandle\<close>.\<close>

definition ctxExpired :: "proc \<Rightarrow> bool" where
  "ctxExpired p = (deadline p \<noteq> Unexpired)"

text \<open>
  \<open>cmd.Wait()\<close> of a command made by \<open>exec.CommandContext\<close>: when the context is done
  before the command has completed, \<open>os/exec\<close> kills the child and \<open>Wait\<close> returns an
  error.
\<close>

definition cmdWait :: "proc \<Rightarrow> string option" where
  "cmdWait p =
     (case waitErr p of
        Some e \<Rightarrow> Some e
      | None \<Rightarrow> if deadline p = ExpiredFirst then Some ''signal: killed'' else None)"

text \<open>
  The environment of one run of \<open>harn\<close>: \<open>spawn n programPath stdin timeout\<close> is the
  behaviour of the child process started by the \<open>n\<close>-th call of \<open>executeProgram\<close>, and
  \<open>glob pattern\<close> is the result of \<open>filepath.Glob\<close>.  \<open>parseDuration\<close> is
  \<open>time.ParseDuration\<close>, which the flag \<open>-t\<close> applies to its value; it computes fractions
  in floating point and is taken from the environment (\<open>None\<close> for an error).
\<close>

record env =
  spawn :: "nat \<Rightarrow> string \<Rightarrow> string \<Rightarrow> duration \<Rightarrow> proc"
  glob :: "string \<Rightarrow> string + string list"
  parseDuration :: "string \<Rightarrow> duration option"

datatype execError = DeadlineExceeded | ExecFailed string

text \<open>\<open>cmd.Output()\<close> starts the command and waits for it.\<close>

definition cmdOutput :: "proc \<Rightarrow> string \<times> string option" where
  "cmdOutput p = (case startErr p of Some e \<Rightarrow> ([], Some e) | None \<Rightarrow> (stdout p, cmdWait p))"

text \<open>The branch \<open>if hash\<close>, up to the label \<open>errHandle\<close>.\<close>

definition hashOutput :: "proc \<Rightarrow> string \<times> string option" where
  "hashOutput p =
     (case pipeErr p of
        Some e \<Rightarrow> ([], Some e)
      | None \<Rightarrow>
          (case startErr p of
             Some e \<Rightarrow> ([], Some e)
           | None \<Rightarrow>
               (case copyErr p of
                  Some e \<Rightarrow> ([], Some e)
                | None \<Rightarrow> (EncodeToString (Sum256 (stdout p)), cmdWait p))))"

definition executeProgram ::
  "env \<Rightarrow> filesys \<Rightarrow> nat \<Rightarrow> string \<Rightarrow> string \<Rightarrow> duration \<Rightarrow> bool
     \<Rightarrow> string \<times> duration \<times> execError option" where
  "executeProgram ev fs n programPath inputFile timeout hash =
     (case readFile fs inputFile of
        Inl e \<Rightarrow> ([], 0, Some (ExecFailed (''failed to read input file: '' @ e)))
      | Inr inputContent \<Rightarrow>
          (let p = spawn ev n programPath inputContent timeout;
               (output, err) = (if hash then hashOutput p else cmdOutput p);
               executionTime = elapsed p
           in case err of
                Some e \<Rightarrow>
                  if ctxExpired p then ([], executionTime, Some DeadlineExceeded)
                  else ([], executionTime, Some (ExecFailed (''program execution failed: '' @ e)))
              | None \<Rightarrow> (output, executionTime, None)))"

section \<open>Comparison and generation driver (main.go, lines 30-179)\<close>

text \<open>
  The flags defined at lines 32-37.  \<open>-v\<close> and \<open>-s\<close> only select what is printed after a
  verdict.
\<close>

record flags =
  verbose :: bool
  silent :: bool
  timeout :: duration
  generate :: bool
  forceGen :: bool
  useHash :: bool

text \<open>The tag printed for a test, with the message of an \<open>ERR\<close> line.\<close>

datatype verdict = AC | WA | TLE | ERR string | GEN | SKIP

text \<open>
  The variables of the loop in \<open>main\<close>, the file system, the number of calls of
  \<open>executeProgram\<close> made so far, and the verdict lines printed so far.
\<close>

record run =
  passedTests :: nat
  generatedFiles :: nat
  totalExecutionTime :: duration
  fsys :: filesys
  execCalls :: nat
  report :: "(string \<times> verdict) list"

definition say :: "string \<Rightarrow> verdict \<Rightarrow> run \<Rightarrow> run" where
  "say inputFile v st = st\<lparr>report := report st @ [(inputFile, v)]\<rparr>"

text \<open>The two lines that report a failed execution (lines 91-98 and 115-122).\<close>

definition sayExecError :: "string \<Rightarrow> execError \<Rightarrow> run \<Rightarrow> run" where
  "sayExecError inputFile err st =
     (case err of
        DeadlineExceeded \<Rightarrow> say inputFile TLE st
      | ExecFailed e \<Rightarrow> say inputFile (ERR (''executing program: '' @ e)) st)"

text \<open>The call of \<open>executeProgram\<close> and \<open>totalExecutionTime += executionTime\<close>.\<close>

definition execute ::
  "flags \<Rightarrow> env \<Rightarrow> string \<Rightarrow> run \<Rightarrow> string \<Rightarrow> (string \<times> execError option) \<times> run" where
  "execute fl ev programPath st inputFile =
     (case executeProgram ev (fsys st) (execCalls st) programPath inputFile (timeout fl) (useHash fl) of
        (actualOutput, executionTime, err) \<Rightarrow>
          ((actualOutput, err),
           st\<lparr>totalExecutionTime := totalExecutionTime st + executionTime,
              execCalls := Suc (execCalls st)\<rparr>))"

text \<open>The body of the loop when \<open>-g\<close> is given (lines 85-109).\<close>

definition generateTest :: "flags \<Rightarrow> env \<Rightarrow> string \<Rightarrow> run \<Rightarrow> string \<Rightarrow> run" where
  "generateTest fl ev programPath st inputFile =
     (let outF = outputFile inputFile (useHash fl) in
      if IsNotExist (osStat (fsys st) outF) \<or> forceGen fl then
        (case execute fl ev programPath st inputFile of
           ((actualOutput, Some err), st1) \<Rightarrow> sayExecError inputFile err st1
         | ((actualOutput, None), st1) \<Rightarrow>
             (case writeFile (fsys st1) outF actualOutput of
                (fs', Some e) \<Rightarrow>
                  say inputFile (ERR (''failed while writing output: '' @ e)) (st1\<lparr>fsys := fs'\<rparr>)
              | (fs', None) \<Rightarrow>
                  say inputFile GEN
                    (st1\<lparr>fsys := fs', generatedFiles := Suc (generatedFiles st1)\<rparr>)))
      else say inputFile SKIP (st\<lparr>passedTests := Suc (passedTests st)\<rparr>))"

text \<open>The body of the loop in check mode (lines 110-158).\<close>

definition checkTest :: "flags \<Rightarrow> env \<Rightarrow> string \<Rightarrow> run \<Rightarrow> string \<Rightarrow> run" where
  "checkTest fl ev programPath st inputFile =
     (let outF = outputFile inputFile (useHash fl) in
      case execute fl ev programPath st inputFile of
        ((actualOutput, Some err), st1) \<Rightarrow> sayExecError inputFile err st1
      | ((actualOutput, None), st1) \<Rightarrow>
          (case readFile (fsys st1) outF of
             Inl e \<Rightarrow> say inputFile (ERR (''reading expected output file: '' @ e)) st1
           | Inr expectedOutput \<Rightarrow>
               if TrimSpace actualOutput = TrimSpace expectedOutput
               then say inputFile AC (st1\<lparr>passedTests := Suc (passedTests st1)\<rparr>)
               else say inputFile WA st1))"

definition runTest :: "flags \<Rightarrow> env \<Rightarrow> string \<Rightarrow> run \<Rightarrow> string \<Rightarrow> run" where
  "runTest fl ev programPath st inputFile =
     (if generate fl then generateTest fl ev programPath st inputFile
      else checkTest fl ev programPath st inputFile)"

definition runTests :: "flags \<Rightarrow> env \<Rightarrow> string \<Rightarrow> run \<Rightarrow> string list \<Rightarrow> run" where
  "runTests fl ev programPath st inputFiles = foldl (runTest fl ev programPath) st inputFiles"

definition start :: "filesys \<Rightarrow> run" where
  "start fs = \<lparr>passedTests = 0, generatedFiles = 0, totalExecutionTime = 0, fsys = fs,
              execCalls = 0, report = []\<rparr>"

text \<open>
  The summary printed at the end (lines 161-178): in generate mode the numbers of
  generated files, of tests that already exist and of tests; in check mode the numbers
  of passed tests and of tests, the total and the average execution time, and the number
  of failed tests (\<open>None\<close> for "All tests passed").
\<close>

datatype summary =
    GenerateSummary nat nat nat
  | CheckSummary nat nat duration "duration option" "nat option"

definition summarize :: "flags \<Rightarrow> nat \<Rightarrow> run \<Rightarrow> summary" where
  "summarize fl totalTests st =
     (if generate fl then GenerateSummary (generatedFiles st) (passedTests st) totalTests
      else CheckSummary (passedTests st) totalTests (totalExecutionTime st)
             (if 0 < totalTests then Some (divDuration (totalExecutionTime st) (of_nat totalTests)) else None)
             (if passedTests st = totalTests then None else Some (totalTests - passedTests st)))"

text \<open>
  What a run of \<open>main\<close> leaves behind: the exit code of the process, the state after the
  loop, and the summary when one is printed.
\<close>

record result =
  exitCode :: nat
  final :: run
  summary :: "summary option"

text \<open>
  \<open>main\<close> from line 40 on, with the flags set and the positional arguments left by
  \<open>flag.Parse\<close>; \<open>os.Exit(1)\<close> and \<open>log.Fatalf\<close> end the process with code 1.
\<close>

definition mainArgs :: "flags \<Rightarrow> env \<Rightarrow> filesys \<Rightarrow> string list \<Rightarrow> result" where
  "mainArgs fl ev fs args =
     (if length args < 2 then \<lparr>exitCode = 1, final = start fs, summary = None\<rparr>
      else
        let programPath = args ! 0; globPattern = args ! 1 in
        case glob ev globPattern of
          Inl e \<Rightarrow> \<lparr>exitCode = 1, final = start fs, summary = None\<rparr>
        | Inr inputFiles \<Rightarrow>
            if length inputFiles = 0 then \<lparr>exitCode = 0, final = start fs, summary = None\<rparr>
            else
              let st = runTests fl ev programPath (start fs) inputFiles
              in \<lparr>exitCode = 0, final = st, summary = Some (summarize fl (length inputFiles) st)\<rparr>)"

subsection \<open>The command line (main.go, lines 32-38)\<close>

text \<open>
  \<open>flag.Parse()\<close> on the command line \<open>os.Args[1:]\<close>, for the flags \<open>-v\<close>, \<open>-s\<close>, \<open>-g\<close>,
  \<open>-f\<close>, \<open>-h\<close> (Boolean) and \<open>-t\<close> (a duration).  Parsing stops at the first argument
  that is not a flag (shorter than two bytes or not starting with a minus) and after
  \<open>--\<close>.  A flag is written with one or two minus signs, and its value after \<open>=\<close>; a
  Boolean flag without a value is set, and \<open>-t\<close> without \<open>=\<close> takes the next argument.
  The flag set exits the process on an error (\<open>flag.ExitOnError\<close>): with code 0 when
  \<open>-help\<close> is asked for, which this program does not define, and with code 2 otherwise.
\<close>

datatype parsed = Parsed flags "string list" | HelpRequested | ParseFailed

datatype step = Seen flags "string list" | Stop parsed

text \<open>\<open>strconv.ParseBool\<close>.\<close>

definition ParseBool :: "string \<Rightarrow> bool option" where
  "ParseBool str =
     (if str \<in> set [''1'', ''t'', ''T'', ''TRUE'', ''true'', ''True''] then Some True
      else if str \<in> set [''0'', ''f'', ''F'', ''FALSE'', ''false'', ''False''] then Some False
      else None)"

definition defaultFlags :: flags where
  "defaultFlags = \<lparr>verbose = False, silent = False, timeout = 30000000000, generate = False,
                    forceGen = False, useHash = False\<rparr>"

definition setBool :: "string \<Rightarrow> bool \<Rightarrow> flags \<Rightarrow> flags option" where
  "setBool name b fl =
     (if name = ''v'' then Some (fl\<lparr>verbose := b\<rparr>)
      else if name = ''s'' then Some (fl\<lparr>silent := b\<rparr>)
      else if name = ''g'' then Some (fl\<lparr>generate := b\<rparr>)
      else if name = ''f'' then Some (fl\<lparr>forceGen := b\<rparr>)
      else if name = ''h'' then Some (fl\<lparr>useHash := b\<rparr>)
      else None)"

definition setDuration :: "env \<Rightarrow> flags \<Rightarrow> string \<Rightarrow> string list \<Rightarrow> step" where
  "setDuration ev fl val rest =
     (case parseDuration ev val of
        None \<Rightarrow> Stop ParseFailed
      | Some d \<Rightarrow> Seen (fl\<lparr>timeout := d\<rparr>) rest)"

text \<open>\<open>parseOne\<close> of the package \<open>flag\<close>, on the argument \<open>s\<close> and those after it.\<close>

definition parseOne :: "env \<Rightarrow> flags \<Rightarrow> string \<Rightarrow> string list \<Rightarrow> step" where
  "parseOne ev fl s rest =
     (if length s < 2 \<or> s ! 0 \<noteq> CHR ''-'' then Stop (Parsed fl (s # rest))
      else if s = ''--'' then Stop (Parsed fl rest)
      else
        let name0 = (if s ! 1 = CHR ''-'' then drop 2 s else drop 1 s) in
        if name0 = [] \<or> hd name0 = CHR ''-'' \<or> hd name0 = CHR ''='' then Stop ParseFailed
        else
          let name = hd name0 # takeWhile (\<lambda>c. c \<noteq> CHR ''='') (tl name0);
              afterName = dropWhile (\<lambda>c. c \<noteq> CHR ''='') (tl name0);
              hasValue = (afterName \<noteq> []);
              val = tl afterName
          in case setBool name True fl of
               Some fl' \<Rightarrow>
                 if hasValue then
                   (case ParseBool val of
                      None \<Rightarrow> Stop ParseFailed
                    | Some b \<Rightarrow> Seen (the (setBool name b fl)) rest)
                 else Seen fl' rest
             | None \<Rightarrow>
                 if name = ''t'' then
                   (if hasValue then setDuration ev fl val rest
                    else case rest of
                           [] \<Rightarrow> Stop ParseFailed
                         | v # rest' \<Rightarrow> setDuration ev fl v rest')
                 else if name = ''help'' \<or> name = ''h'' then Stop HelpRequested
                 else Stop ParseFailed)"

function flagParse :: "env \<Rightarrow> flags \<Rightarrow> string list \<Rightarrow> parsed" where
  "flagParse ev fl args =
     (case args of
        [] \<Rightarrow> Parsed fl []
      | s # rest \<Rightarrow>
          (case parseOne ev fl s rest of
             Seen fl' rest' \<Rightarrow> flagParse ev fl' rest'
           | Stop r \<Rightarrow> r))"
  by pat_completeness auto
termination
proof (relation "measure (\<lambda>(ev, fl, args). length args)")
  fix ev :: env and fl fl' :: flags and args rest rest' :: "string list" and s :: string
  assume "args = s # rest" and "parseOne ev fl s rest = Seen fl' rest'"
  then have "length rest' \<le> length rest"
    by (auto simp add: parseOne_def setDuration_def Let_def
        split: if_splits option.splits list.splits)
  with \<open>args = s # rest\<close> show "((ev, fl', rest'), (ev, fl, args)) \<in> measure (\<lambda>(ev, fl, args). length args)"
    by simp
qed simp

declare flagParse.simps [simp del]

text \<open>The whole of \<open>main\<close>, on the command line \<open>argv\<close>.\<close>

definition main :: "env \<Rightarrow> filesys \<Rightarrow> string list \<Rightarrow> result" where
  "main ev fs argv =
     (case flagParse ev defaultFlags argv of
        Parsed fl args \<Rightarrow> mainArgs fl ev fs args
      | HelpRequested \<Rightarrow> \<lparr>exitCode = 0, final = start fs, summary = None\<rparr>
      | ParseFailed \<Rightarrow> \<lparr>exitCode = 2, final = start fs, summary = None\<rparr>)"

section \<open>White space\<close>

text \<open>A string that consists of white-space runes only.\<close>

definition spaces :: "string \<Rightarrow> bool" where
  "spaces s \<longleftrightarrow> (\<exists>es. set es \<subseteq> set spaceEncodings \<and> s = concat es)"

section \<open>Joining lines\<close>

text \<open>What the loop of \<open>readFile\<close> builds from the tokens of the scanner, without its
  last line feed.\<close>

definition joinLines :: "string list \<Rightarrow> string" where
  "joinLines tokens = TrimSuffix (concat (map (\<lambda>t. t @ [LF]) tokens)) [LF]"

section \<open>Counting verdicts\<close>

definition countVerdict :: "verdict \<Rightarrow> (string \<times> verdict) list \<Rightarrow> nat" where
  "countVerdict v rep = length (filter (\<lambda>line. snd line = v) rep)"

text \<open>The counters of a run agree with the verdicts it has printed.\<close>

definition counted :: "flags \<Rightarrow> run \<Rightarrow> bool" where
  "counted fl st \<longleftrightarrow>
     passedTests st = countVerdict (if generate fl then SKIP else AC) (report st)
     \<and> generatedFiles st = countVerdict GEN (report st)"

section \<open>Example worlds\<close>

text \<open>
  Small file systems, child processes and environments on which the properties below are
  evaluated: a child that copies its input and exits with status 0 after 5 ms, one that
  exits with status 1, one that is killed at a deadline of 100 ms, and one that exits
  with status 1 before that deadline while \<open>cmd.Wait\<close> returns after it.
\<close>

definition noError :: "string \<Rightarrow> string option" where
  "noError name = None"

definition disk :: "(string \<times> string) list \<Rightarrow> filesys" where
  "disk files = \<lparr>contents = map_of files, statErr = noError, openErr = noError,
                  createErr = noError, writeErr = noError\<rparr>"

definition exited :: "string \<Rightarrow> string option \<Rightarrow> proc" where
  "exited out err = \<lparr>pipeErr = None, startErr = None, copyErr = None, waitErr = err,
                      stdout = out, deadline = Unexpired, elapsed = 5000000\<rparr>"

definition killed :: proc where
  "killed = \<lparr>pipeErr = None, startErr = None, copyErr = None, waitErr = Some ''signal: killed'',
              stdout = [], deadline = ExpiredFirst, elapsed = 100000000\<rparr>"

definition lateExit :: proc where
  "lateExit = \<lparr>pipeErr = None, startErr = None, copyErr = None, waitErr = Some ''exit status 1'',
                stdout = [], deadline = ExpiredLater, elapsed = 150000000\<rparr>"

definition durations :: "string \<Rightarrow> duration option" where
  "durations str = (if str = ''5s'' then Some 5000000000
                    else if str = ''100ms'' then Some 100000000 else None)"

definition echoEnv :: env where
  "echoEnv = \<lparr>spawn = (\<lambda>n programPath input t. exited input None),
               glob = (\<lambda>pattern. Inr [''a.in'']),
               parseDuration = durations\<rparr>"

definition failEnv :: env where
  "failEnv = \<lparr>spawn = (\<lambda>n programPath input t. exited [] (Some ''exit status 1'')),
               glob = (\<lambda>pattern. Inr [''a.in'']),
               parseDuration = durations\<rparr>"

definition lateEnv :: env where
  "lateEnv = \<lparr>spawn = (\<lambda>n programPath input t. lateExit),
               glob = (\<lambda>pattern. Inr [''a.in'']),
               parseDuration = durations\<rparr>"

definition hangEnv :: env where
  "hangEnv = \<lparr>spawn = (\<lambda>n programPath input t. killed),
               glob = (\<lambda>pattern. Inr [''a.in'']),
               parseDuration = durations\<rparr>"

definition badPatternEnv :: env where
  "badPatternEnv = \<lparr>spawn = (\<lambda>n programPath input t. exited input None),
                     glob = (\<lambda>pattern. if pattern = ''['' then Inl ''syntax error in pattern''
                                        else Inr []),
                     parseDuration = durations\<rparr>"

definition twoFiles :: env where
  "twoFiles = \<lparr>spawn = (\<lambda>n programPath input t. if n = 0 then killed else exited input None),
                glob = (\<lambda>pattern. Inr [''a.in'', ''b.in'']),
               parseDuration = durations\<rparr>"

definition checkFlags :: flags where
  "checkFlags = \<lparr>verbose = False, silent = False, timeout = 30000000000, generate = False,
       forceGen = False, useHash = False\<rparr>"

definition generateFlags :: flags where
  "generateFlags = \<lparr>verbose = False, silent = False, timeout = 30000000000, generate = True,
       forceGen = False, useHash = False\<rparr>"

definition hashGenerateFlags :: flags where
  "hashGenerateFlags = \<lparr>verbose = False, silent = False, timeout = 30000000000, generate = True,
       forceGen = False, useHash = True\<rparr>"

definition hashCheckFlags :: flags where
  "hashCheckFlags = \<lparr>verbose = False, silent = False, timeout = 30000000000, generate = False,
       forceGen = False, useHash = True\<rparr>"

definition lockedDisk :: filesys where
  "lockedDisk = (disk [(''a.in'', ''3'' @ [LF])])
     \<lparr>statErr := (\<lambda>name. if name = ''a.out'' then Some ''stat a.out: permission denied'' else None)\<rparr>"

section \<open>Properties\<close>

subsection \<open>Evaluation rules\<close>

lemmas world_defs = noError_def disk_def exited_def killed_def lateExit_def durations_def echoEnv_def
  failEnv_def lateEnv_def hangEnv_def
  badPatternEnv_def twoFiles_def checkFlags_def generateFlags_def hashGenerateFlags_def hashCheckFlags_def
  lockedDisk_def

lemmas file_defs = readFile_def osOpen_def osStat_def IsNotExist_def writeFile_def
  scanLines.simps Let_def MaxScanTokenSize_def dropCR_def TrimSuffix_def suffix_to_prefix

lemmas trim_defs = TrimSpace_def TrimLeftSpace.simps TrimRightSpace.simps leadingSpace_def
  trailingSpace_def spaceEncodings_def suffix_to_prefix

lemmas driver_defs = mainArgs_def runTests_def runTest_def generateTest_def checkTest_def execute_def
  executeProgram_def cmdOutput_def hashOutput_def cmdWait_def ctxExpired_def say_def
  sayExecError_def start_def summarize_def outputFile_def expectedExt_def

lemmas flag_defs = main_def flagParse.simps parseOne_def setBool_def setDuration_def ParseBool_def
  defaultFlags_def

subsection \<open>The expected-output path\<close>

lemma TrimSuffix_append: "TrimSuffix (b @ suf) suf = b"
  by (simp add: TrimSuffix_def suffix_def)

lemma TrimSuffix_absent: "\<not> suffix suf s \<Longrightarrow> TrimSuffix s suf = s"
  by (simp add: TrimSuffix_def)

text \<open>
  Claim C7.  The path of the expected-output file is a function of the input path and of
  the hash flag alone: one trailing \<open>.in\<close> is stripped when the path ends with it, the
  path is kept as it is otherwise, and \<open>.hash\<close> (hash mode) or \<open>.out\<close> is appended.
\<close>

theorem outputFile_resolves:
  "outputFile (base @ ''.in'') hash = base @ (if hash then ''.hash'' else ''.out'')
   \<and> (\<not> suffix ''.in'' inputFile \<longrightarrow>
        outputFile inputFile hash = inputFile @ (if hash then ''.hash'' else ''.out''))"
  by (simp add: outputFile_def expectedExt_def TrimSuffix_append TrimSuffix_absent)

theorem outputFile_resolves_witness:
  "outputFile ''t/a.in.in'' True = ''t/a.in.hash''
   \<and> \<not> suffix ''.in'' ''t/b.txt'' \<and> outputFile ''t/b.txt'' True = ''t/b.txt.hash''"
  using outputFile_resolves [of "''t/a.in''" True "''t/b.txt''"]
  by (simp add: suffix_to_prefix)

subsection \<open>Verdicts in check mode\<close>

lemma TrimLeftSpace_suffix: "suffix (TrimLeftSpace s) s"
proof (induction s rule: TrimLeftSpace.induct)
  case (1 s)
  show ?case
  proof (cases "leadingSpace s = 0")
    case True
    then show ?thesis by (simp add: TrimLeftSpace.simps)
  next
    case False
    with 1 have "suffix (TrimLeftSpace (drop (leadingSpace s) s)) (drop (leadingSpace s) s)"
      by simp
    then have "suffix (TrimLeftSpace (drop (leadingSpace s) s)) s"
      using suffix_drop suffix_order.trans by blast
    with False show ?thesis by (subst TrimLeftSpace.simps) simp
  qed
qed

lemma TrimRightSpace_prefix: "prefix (TrimRightSpace s) s"
proof (induction s rule: TrimRightSpace.induct)
  case (1 s)
  show ?case
  proof (cases "trailingSpace s = 0")
    case True
    then show ?thesis by (simp add: TrimRightSpace.simps)
  next
    case False
    with 1 have "prefix (TrimRightSpace (take (length s - trailingSpace s) s))
                   (take (length s - trailingSpace s) s)"
      by simp
    then have "prefix (TrimRightSpace (take (length s - trailingSpace s) s)) s"
      using take_is_prefix prefix_order.trans by blast
    with False show ?thesis by (subst TrimRightSpace.simps) simp
  qed
qed

lemma TrimSpace_inner: "\<exists>l r. s = l @ TrimSpace s @ r"
proof -
  obtain l where l: "s = l @ TrimLeftSpace s"
    using TrimLeftSpace_suffix [of s] by (auto simp add: suffix_def)
  obtain r where r: "TrimLeftSpace s = TrimSpace s @ r"
    using TrimRightSpace_prefix [of "TrimLeftSpace s"] by (auto simp add: prefix_def TrimSpace_def)
  from l r have "s = l @ TrimSpace s @ r" by simp
  then show ?thesis by blast
qed

lemma spaceEncodings_nonempty: "[] \<notin> set spaceEncodings"
  by (simp add: spaceEncodings_def)

lemma leadingSpace_0_iff: "leadingSpace s = 0 \<longleftrightarrow> (\<forall>e\<in>set spaceEncodings. \<not> prefix e s)"
proof (cases "find (\<lambda>e. prefix e s) spaceEncodings")
  case None
  then have "leadingSpace s = 0" by (simp add: leadingSpace_def)
  moreover from None have "\<forall>e\<in>set spaceEncodings. \<not> prefix e s" by (simp add: find_None_iff)
  ultimately show ?thesis by simp
next
  case (Some e)
  then have "e \<in> set spaceEncodings" and "prefix e s"
    by (auto simp add: find_Some_iff)
  moreover from this have "e \<noteq> []" using spaceEncodings_nonempty by auto
  ultimately show ?thesis using Some by (auto simp add: leadingSpace_def)
qed

lemma trailingSpace_0_iff: "trailingSpace s = 0 \<longleftrightarrow> (\<forall>e\<in>set spaceEncodings. \<not> suffix e s)"
proof (cases "find (\<lambda>e. suffix e s) spaceEncodings")
  case None
  then have "trailingSpace s = 0" by (simp add: trailingSpace_def)
  moreover from None have "\<forall>e\<in>set spaceEncodings. \<not> suffix e s" by (simp add: find_None_iff)
  ultimately show ?thesis by simp
next
  case (Some e)
  then have "e \<in> set spaceEncodings" and "suffix e s"
    by (auto simp add: find_Some_iff)
  moreover from this have "e \<noteq> []" using spaceEncodings_nonempty by auto
  ultimately show ?thesis using Some by (auto simp add: trailingSpace_def)
qed

lemma leadingSpace_take:
  assumes "leadingSpace s \<noteq> 0"
  shows "take (leadingSpace s) s \<in> set spaceEncodings"
proof -
  from assms obtain e where f: "find (\<lambda>e. prefix e s) spaceEncodings = Some e"
    by (auto simp add: leadingSpace_def split: option.splits)
  then have "e \<in> set spaceEncodings" and "prefix e s" by (auto simp add: find_Some_iff)
  moreover from f have "leadingSpace s = length e" by (simp add: leadingSpace_def)
  ultimately show ?thesis by (auto simp add: prefix_def)
qed

lemma trailingSpace_drop:
  assumes "trailingSpace s \<noteq> 0"
  shows "drop (length s - trailingSpace s) s \<in> set spaceEncodings"
proof -
  from assms obtain e where f: "find (\<lambda>e. suffix e s) spaceEncodings = Some e"
    by (auto simp add: trailingSpace_def split: option.splits)
  then have "e \<in> set spaceEncodings" and "suffix e s" by (auto simp add: find_Some_iff)
  moreover from f have "trailingSpace s = length e" by (simp add: trailingSpace_def)
  ultimately show ?thesis by (auto simp add: suffix_def)
qed

lemma spaces_Nil: "spaces []"
  unfolding spaces_def by (rule exI [of _ "[]"]) simp

lemma spaces_Cons: "e \<in> set spaceEncodings \<Longrightarrow> spaces l \<Longrightarrow> spaces (e @ l)"
proof -
  assume e: "e \<in> set spaceEncodings" and "spaces l"
  then obtain es where "set es \<subseteq> set spaceEncodings" and "l = concat es"
    by (auto simp add: spaces_def)
  with e have "set (e # es) \<subseteq> set spaceEncodings \<and> e @ l = concat (e # es)" by simp
  then show ?thesis unfolding spaces_def by blast
qed

lemma spaces_snoc: "spaces r \<Longrightarrow> e \<in> set spaceEncodings \<Longrightarrow> spaces (r @ e)"
proof -
  assume "spaces r" and e: "e \<in> set spaceEncodings"
  then obtain es where "set es \<subseteq> set spaceEncodings" and "r = concat es"
    by (auto simp add: spaces_def)
  with e have "set (es @ [e]) \<subseteq> set spaceEncodings \<and> r @ e = concat (es @ [e])" by simp
  then show ?thesis unfolding spaces_def by blast
qed

lemma TrimLeftSpace_spec:
  "(\<exists>l. s = l @ TrimLeftSpace s \<and> spaces l) \<and> leadingSpace (TrimLeftSpace s) = 0"
proof (induction s rule: TrimLeftSpace.induct)
  case (1 s)
  show ?case
  proof (cases "leadingSpace s = 0")
    case True
    then have "TrimLeftSpace s = s" by (simp add: TrimLeftSpace.simps)
    with True spaces_Nil show ?thesis by auto
  next
    case False
    let ?k = "leadingSpace s"
    from False have t: "TrimLeftSpace s = TrimLeftSpace (drop ?k s)"
      by (subst TrimLeftSpace.simps) simp
    from 1 False obtain l where l: "drop ?k s = l @ TrimLeftSpace (drop ?k s)" and sl: "spaces l"
      and z: "leadingSpace (TrimLeftSpace (drop ?k s)) = 0"
      by blast
    have "s = take ?k s @ drop ?k s" by simp
    with l have "s = (take ?k s @ l) @ TrimLeftSpace s" unfolding t by (metis append_assoc)
    moreover have "spaces (take ?k s @ l)"
      using leadingSpace_take [OF False] sl by (rule spaces_Cons)
    ultimately have "\<exists>l. s = l @ TrimLeftSpace s \<and> spaces l" by blast
    with z t show ?thesis by simp
  qed
qed

lemma TrimRightSpace_spec:
  "(\<exists>r. s = TrimRightSpace s @ r \<and> spaces r) \<and> trailingSpace (TrimRightSpace s) = 0"
proof (induction s rule: TrimRightSpace.induct)
  case (1 s)
  show ?case
  proof (cases "trailingSpace s = 0")
    case True
    then have "TrimRightSpace s = s" by (simp add: TrimRightSpace.simps)
    with True spaces_Nil show ?thesis by auto
  next
    case False
    let ?k = "length s - trailingSpace s"
    from False have t: "TrimRightSpace s = TrimRightSpace (take ?k s)"
      by (subst TrimRightSpace.simps) simp
    from 1 False obtain r where r: "take ?k s = TrimRightSpace (take ?k s) @ r" and sr: "spaces r"
      and z: "trailingSpace (TrimRightSpace (take ?k s)) = 0"
      by blast
    have "s = take ?k s @ drop ?k s" by simp
    with r have "s = TrimRightSpace s @ (r @ drop ?k s)" unfolding t by (metis append_assoc)
    moreover have "spaces (r @ drop ?k s)"
      using sr trailingSpace_drop [OF False] by (rule spaces_snoc)
    ultimately have "\<exists>r. s = TrimRightSpace s @ r \<and> spaces r" by blast
    with z t show ?thesis by simp
  qed
qed

lemma TrimSpace_spec:
  "(\<exists>l r. s = l @ TrimSpace s @ r \<and> spaces l \<and> spaces r)
   \<and> leadingSpace (TrimSpace s) = 0 \<and> trailingSpace (TrimSpace s) = 0"
proof -
  from TrimLeftSpace_spec [of s] obtain l where l: "s = l @ TrimLeftSpace s" and sl: "spaces l"
    and zl: "leadingSpace (TrimLeftSpace s) = 0" by blast
  from TrimRightSpace_spec [of "TrimLeftSpace s"] obtain r
    where r: "TrimLeftSpace s = TrimSpace s @ r" and sr: "spaces r"
      and zr: "trailingSpace (TrimSpace s) = 0"
    unfolding TrimSpace_def by blast
  from l r have "s = l @ TrimSpace s @ r" by simp
  moreover have "leadingSpace (TrimSpace s) = 0"
  proof -
    have "prefix (TrimSpace s) (TrimLeftSpace s)" using r by (metis prefixI)
    then have "\<And>e. prefix e (TrimSpace s) \<Longrightarrow> prefix e (TrimLeftSpace s)"
      using prefix_order.trans by blast
    with zl show ?thesis unfolding leadingSpace_0_iff by blast
  qed
  ultimately show ?thesis using sl sr zr by blast
qed

text \<open>
  Claim C1.  In check mode, when the execution of the program succeeds with output
  \<open>actual\<close> and \<open>readFile\<close> returns \<open>expected\<close> for the expected-output file, the verdict
  is \<open>AC\<close> if \<open>actual\<close> and \<open>expected\<close> are equal after \<open>strings.TrimSpace\<close>, and \<open>WA\<close>
  otherwise; the test is counted as passed exactly in the first case.  \<open>TrimSpace\<close> cuts
  at the two ends only: a string is what \<open>TrimSpace\<close> returns for it, with white-space
  runes only before and after, and what \<open>TrimSpace\<close> returns neither starts nor ends with
  a white-space rune.
\<close>

theorem check_verdict:
  assumes "\<not> generate fl"
    and "executeProgram ev (fsys st) (execCalls st) prog f (timeout fl) (useHash fl) = (actual, t, None)"
    and "readFile (fsys st) (outputFile f (useHash fl)) = Inr expected"
  shows "report (runTest fl ev prog st f) =
           report st @ [(f, if TrimSpace actual = TrimSpace expected then AC else WA)]
         \<and> passedTests (runTest fl ev prog st f) =
           (if TrimSpace actual = TrimSpace expected then Suc (passedTests st) else passedTests st)
         \<and> (\<exists>l r. actual = l @ TrimSpace actual @ r \<and> spaces l \<and> spaces r)
         \<and> leadingSpace (TrimSpace actual) = 0 \<and> trailingSpace (TrimSpace actual) = 0
         \<and> (\<exists>l r. expected = l @ TrimSpace expected @ r \<and> spaces l \<and> spaces r)
         \<and> leadingSpace (TrimSpace expected) = 0 \<and> trailingSpace (TrimSpace expected) = 0"
  using assms TrimSpace_spec [of actual] TrimSpace_spec [of expected]
  by (simp add: runTest_def checkTest_def execute_def say_def)

theorem check_verdict_witness:
  "\<not> generate checkFlags
   \<and> executeProgram echoEnv
         (disk [(''a.in'', ''3'' @ [CHR 0x20, CHR 0x09, CHR 0xC2, CHR 0xA0, LF, LF]),
                (''a.out'', '' 3'' @ [CR, LF])]) 0
         ''./p'' ''a.in'' (timeout checkFlags) (useHash checkFlags)
       = (''3'' @ [CHR 0x20, CHR 0x09, CHR 0xC2, CHR 0xA0, LF], 5000000, None)
   \<and> readFile (disk [(''a.in'', ''3'' @ [CHR 0x20, CHR 0x09, CHR 0xC2, CHR 0xA0, LF, LF]),
                (''a.out'', '' 3'' @ [CR, LF])])
         (outputFile ''a.in'' (useHash checkFlags)) = Inr '' 3''
   \<and> TrimSpace (''3'' @ [CHR 0x20, CHR 0x09, CHR 0xC2, CHR 0xA0, LF]) = ''3''
   \<and> TrimSpace '' 3'' = ''3''
   \<and> report (runTest checkFlags echoEnv ''./p''
         (start (disk [(''a.in'', ''3'' @ [CHR 0x20, CHR 0x09, CHR 0xC2, CHR 0xA0, LF, LF]),
                (''a.out'', '' 3'' @ [CR, LF])])) ''a.in'')
       = [(''a.in'', AC)]
   \<and> executeProgram echoEnv (disk [(''b.in'', ''1'' @ [LF, LF] @ ''2''), (''b.out'', ''1'' @ [LF] @ ''2'')])
         0 ''./p'' ''b.in'' (timeout checkFlags) (useHash checkFlags)
       = (''1'' @ [LF, LF] @ ''2'', 5000000, None)
   \<and> readFile (disk [(''b.in'', ''1'' @ [LF, LF] @ ''2''), (''b.out'', ''1'' @ [LF] @ ''2'')])
         (outputFile ''b.in'' (useHash checkFlags)) = Inr (''1'' @ [LF] @ ''2'')
   \<and> report (runTest checkFlags echoEnv ''./p''
         (start (disk [(''b.in'', ''1'' @ [LF, LF] @ ''2''), (''b.out'', ''1'' @ [LF] @ ''2'')])) ''b.in'')
       = [(''b.in'', WA)]"
  using check_verdict [of checkFlags echoEnv
      "start (disk [(''a.in'', ''3'' @ [CHR 0x20, CHR 0x09, CHR 0xC2, CHR 0xA0, LF, LF]),
                (''a.out'', '' 3'' @ [CR, LF])])"
      "''./p''" "''a.in''" "''3'' @ [CHR 0x20, CHR 0x09, CHR 0xC2, CHR 0xA0, LF]" 5000000 "'' 3''"]
    check_verdict [of checkFlags echoEnv
      "start (disk [(''b.in'', ''1'' @ [LF, LF] @ ''2''), (''b.out'', ''1'' @ [LF] @ ''2'')])"
      "''./p''" "''b.in''" "''1'' @ [LF, LF] @ ''2''" 5000000 "''1'' @ [LF] @ ''2''"]
  by (simp add: world_defs file_defs trim_defs executeProgram_def cmdOutput_def cmdWait_def
      start_def outputFile_def expectedExt_def)

subsection \<open>Classification of failed executions\<close>

text \<open>
  Claim C2, as stated, fails in its second half: \<open>ctx.Err()\<close> is inspected at the label
  \<open>errHandle\<close>, after \<open>cmd.Wait\<close> or \<open>cmd.Output\<close> has returned, not when the failure
  occurs.  A child that exits with status 1 before the deadline, while \<open>cmd.Output\<close>
  returns after it, is classified as a timeout.
\<close>

theorem executeProgram_counterexample:
  "spawn lateEnv 0 ''./p'' ''3'' 100000000 = lateExit
   \<and> waitErr lateExit = Some ''exit status 1'' \<and> deadline lateExit = ExpiredLater
   \<and> executeProgram lateEnv (disk [(''a.in'', ''3'' @ [LF])]) 0 ''./p'' ''a.in'' 100000000 False
       = ([], 150000000, Some DeadlineExceeded)"
  by (simp add: world_defs file_defs executeProgram_def cmdOutput_def cmdWait_def ctxExpired_def)

text \<open>
  Claim C2, amended.  For every call of \<open>executeProgram\<close> that starts the child: if the
  deadline elapses before the child exits, the returned error is
  \<open>context.DeadlineExceeded\<close>, never an execution error.  A spawn failure (from
  \<open>StdoutPipe\<close> or \<open>Start\<close>), a stream error (from copying the output) or a non-zero exit
  (from \<open>Wait\<close>) is classified as an execution error that carries the message of the
  underlying error if the deadline has still not expired when \<open>executeProgram\<close> inspects
  the context at \<open>errHandle\<close>; if the deadline expires between the failure and that
  inspection, the returned error is \<open>context.DeadlineExceeded\<close>.  The elapsed time is
  returned in every case.
\<close>

theorem executeProgram_classifies:
  assumes "readFile fs inputFile = Inr input"
    and "p = spawn ev n prog input t"
    and "failed \<longleftrightarrow>
           (hash \<and> pipeErr p = Some e)
         \<or> ((hash \<longrightarrow> pipeErr p = None) \<and> startErr p = Some e)
         \<or> (hash \<and> pipeErr p = None \<and> startErr p = None \<and> copyErr p = Some e)
         \<or> ((hash \<longrightarrow> pipeErr p = None \<and> copyErr p = None) \<and> startErr p = None
              \<and> waitErr p = Some e)"
  shows "(deadline p = ExpiredFirst \<longrightarrow>
            executeProgram ev fs n prog inputFile t hash = ([], elapsed p, Some DeadlineExceeded))
         \<and> (failed \<and> deadline p = Unexpired \<longrightarrow>
            executeProgram ev fs n prog inputFile t hash =
              ([], elapsed p, Some (ExecFailed (''program execution failed: '' @ e))))
         \<and> (failed \<and> deadline p = ExpiredLater \<longrightarrow>
            executeProgram ev fs n prog inputFile t hash = ([], elapsed p, Some DeadlineExceeded))"
  using assms
  by (auto simp add: executeProgram_def Let_def hashOutput_def cmdOutput_def cmdWait_def
      ctxExpired_def split: option.splits)

theorem executeProgram_classifies_witness:
  "deadline killed = ExpiredFirst
   \<and> executeProgram hangEnv (disk [(''a.in'', ''3'' @ [LF])]) 0 ''./p'' ''a.in'' 100000000 False =
     ([], 100000000, Some DeadlineExceeded)
   \<and> waitErr (exited [] (Some ''exit status 1'')) = Some ''exit status 1''
   \<and> deadline (exited [] (Some ''exit status 1'')) = Unexpired
   \<and> executeProgram failEnv (disk [(''a.in'', ''3'' @ [LF])]) 0 ''./p'' ''a.in'' 100000000 True =
     ([], 5000000, Some (ExecFailed ''program execution failed: exit status 1''))
   \<and> deadline lateExit = ExpiredLater
   \<and> executeProgram lateEnv (disk [(''a.in'', ''3'' @ [LF])]) 0 ''./p'' ''a.in'' 100000000 True =
     ([], 150000000, Some DeadlineExceeded)"
  using executeProgram_classifies [of "disk [(''a.in'', ''3'' @ [LF])]" "''a.in''" "''3''" killed
      hangEnv 0 "''./p''" 100000000 True False "''signal: killed''"]
    executeProgram_classifies [of "disk [(''a.in'', ''3'' @ [LF])]" "''a.in''" "''3''"
      "exited [] (Some ''exit status 1'')" failEnv 0 "''./p''" 100000000 True True
      "''exit status 1''"]
    executeProgram_classifies [of "disk [(''a.in'', ''3'' @ [LF])]" "''a.in''" "''3''" lateExit
      lateEnv 0 "''./p''" 100000000 True True "''exit status 1''"]
  by (simp add: world_defs file_defs)

subsection \<open>Skipping in generate mode\<close>

text \<open>
  Claim C10.  In generate mode without \<open>-f\<close>, whenever \<open>os.Stat\<close> of the expected-output
  path returns anything but a does-not-exist error (success, or another error such as
  permission denied), the test is reported \<open>SKIP\<close> and counted as already existing, the
  executor is not called and the file system is unchanged.  The executor runs, a file is
  written or \<open>GEN\<close> is reported only when \<open>os.Stat\<close> reports non-existence or \<open>-f\<close> is
  given.
\<close>

theorem generate_skips_unless_absent:
  assumes "generate fl"
  shows "(\<not> forceGen fl \<and> osStat (fsys st) (outputFile f (useHash fl)) \<noteq> StatNotExist \<longrightarrow>
            report (runTest fl ev prog st f) = report st @ [(f, SKIP)]
            \<and> passedTests (runTest fl ev prog st f) = Suc (passedTests st)
            \<and> generatedFiles (runTest fl ev prog st f) = generatedFiles st
            \<and> execCalls (runTest fl ev prog st f) = execCalls st
            \<and> fsys (runTest fl ev prog st f) = fsys st)
         \<and> (execCalls (runTest fl ev prog st f) \<noteq> execCalls st
              \<or> fsys (runTest fl ev prog st f) \<noteq> fsys st
              \<or> report (runTest fl ev prog st f) = report st @ [(f, GEN)] \<longrightarrow>
            osStat (fsys st) (outputFile f (useHash fl)) = StatNotExist \<or> forceGen fl)"
proof (cases "\<not> forceGen fl \<and> osStat (fsys st) (outputFile f (useHash fl)) \<noteq> StatNotExist")
  case True
  then have "runTest fl ev prog st f = say f SKIP (st\<lparr>passedTests := Suc (passedTests st)\<rparr>)"
    using assms by (simp add: runTest_def generateTest_def IsNotExist_def)
  then show ?thesis by (simp add: say_def)
next
  case False
  then show ?thesis by blast
qed

theorem generate_skips_unless_absent_witness:
  "generate generateFlags \<and> \<not> forceGen generateFlags
   \<and> osStat lockedDisk (outputFile ''a.in'' (useHash generateFlags))
       = StatError ''stat a.out: permission denied''
   \<and> report (runTest generateFlags echoEnv ''./p'' (start lockedDisk) ''a.in'') = [(''a.in'', SKIP)]
   \<and> execCalls (runTest generateFlags echoEnv ''./p'' (start lockedDisk) ''a.in'') = 0"
  using generate_skips_unless_absent [of generateFlags "start lockedDisk" "''a.in''" echoEnv "''./p''"]
  by (simp add: world_defs lockedDisk_def file_defs start_def outputFile_def expectedExt_def)

subsection \<open>Exit code\<close>

lemma flagParse_Nil: "flagParse ev fl [] = Parsed fl []"
  by (simp add: flagParse.simps)

lemma flagParse_positional:
  "length s < 2 \<or> s ! 0 \<noteq> CHR ''-'' \<Longrightarrow> flagParse ev fl (s # rest) = Parsed fl (s # rest)"
  by (subst flagParse.simps) (auto simp add: parseOne_def)

lemma flagParse_help:
  "flagParse ev fl (''-help'' # rest) = HelpRequested"
  "flagParse ev fl (''--help'' # rest) = HelpRequested"
  by (subst flagParse.simps, simp add: parseOne_def setBool_def)+

lemma flagParse_undefined:
  assumes "name \<notin> set [''v'', ''s'', ''g'', ''f'', ''h'', ''t'', ''help'']"
    and "name \<noteq> []" and "hd name \<noteq> CHR ''-''" and "hd name \<noteq> CHR ''=''"
    and "CHR ''='' \<notin> set name"
  shows "flagParse ev fl ((CHR ''-'' # name) # rest) = ParseFailed"
proof -
  obtain c cs where n: "name = c # cs" using assms(2) by (cases name) auto
  have tw: "takeWhile (\<lambda>x. x \<noteq> CHR ''='') cs = cs"
    using assms(5) n by (auto simp add: takeWhile_eq_all_conv)
  have dw: "dropWhile (\<lambda>x. x \<noteq> CHR ''='') cs = []"
    using assms(5) n by (auto simp add: dropWhile_eq_Nil_conv)
  show ?thesis
    using assms(1,3,4) n
    by (subst flagParse.simps) (auto simp add: parseOne_def setBool_def Let_def tw dw)
qed

lemma exitCode_mainArgs:
  "exitCode (mainArgs fl ev fs args) =
     (if length args < 2 \<or> (\<exists>e. glob ev (args ! 1) = Inl e) then 1 else 0)"
  by (auto simp add: mainArgs_def Let_def split: sum.splits)

text \<open>
  Claim C6, as stated, fails: with two positional arguments and a malformed pattern,
  \<open>filepath.Glob\<close> returns \<open>ErrBadPattern\<close> and \<open>log.Fatalf\<close> ends the process with
  code 1; and with a flag that is not defined, \<open>flag.Parse\<close> ends it with code 2.
\<close>

theorem exit_code_counterexample:
  "flagParse badPatternEnv defaultFlags [''./p'', ''[''] = Parsed defaultFlags [''./p'', ''['']
   \<and> \<not> length [''./p'', ''[''] < 2
   \<and> exitCode (main badPatternEnv (disk []) [''./p'', ''['']) = 1
   \<and> exitCode (main badPatternEnv (disk []) [''-x'', ''./p'', ''*.in'']) = 2"
  by (simp add: flag_defs mainArgs_def badPatternEnv_def)

text \<open>
  Claim C6, amended.  The process exits with code 2 if \<open>flag.Parse\<close> rejects the command
  line (a flag that is not defined, bad flag syntax, a missing or invalid value), and
  with code 0 if \<open>-help\<close> is asked for.  Otherwise it exits with code 1 if fewer than two
  positional arguments are given or if the glob pattern is rejected, and with code 0 in
  every other case; when no file matches the pattern, \<open>main\<close> returns with code 0
  without running a test or printing a summary.  A command line that starts with a
  positional argument has no flags.
\<close>

theorem exit_code:
  "exitCode (main ev fs argv) =
     (case flagParse ev defaultFlags argv of
        HelpRequested \<Rightarrow> 0
      | ParseFailed \<Rightarrow> 2
      | Parsed fl args \<Rightarrow>
          if length args < 2 \<or> (\<exists>e. glob ev (args ! 1) = Inl e) then 1 else 0)
   \<and> (flagParse ev defaultFlags argv = Parsed fl args \<and> 2 \<le> length args
        \<and> glob ev (args ! 1) = Inr [] \<longrightarrow>
        main ev fs argv = \<lparr>exitCode = 0, final = start fs, summary = None\<rparr>)
   \<and> (argv = [] \<or> length (hd argv) < 2 \<or> hd argv ! 0 \<noteq> CHR ''-'' \<longrightarrow>
        flagParse ev defaultFlags argv = Parsed defaultFlags argv)
   \<and> flagParse ev fl0 (''-help'' # rest) = HelpRequested
   \<and> flagParse ev fl0 (''--help'' # rest) = HelpRequested
   \<and> (name \<notin> set [''v'', ''s'', ''g'', ''f'', ''h'', ''t'', ''help''] \<and> name \<noteq> []
        \<and> hd name \<noteq> CHR ''-'' \<and> hd name \<noteq> CHR ''='' \<and> CHR ''='' \<notin> set name \<longrightarrow>
        flagParse ev fl0 ((CHR ''-'' # name) # rest) = ParseFailed)"
proof -
  have a: "exitCode (main ev fs argv) =
     (case flagParse ev defaultFlags argv of
        HelpRequested \<Rightarrow> 0
      | ParseFailed \<Rightarrow> 2
      | Parsed fl args \<Rightarrow>
          if length args < 2 \<or> (\<exists>e. glob ev (args ! 1) = Inl e) then 1 else 0)"
    by (simp add: main_def exitCode_mainArgs split: parsed.splits)
  have b: "flagParse ev defaultFlags argv = Parsed fl args \<and> 2 \<le> length args
        \<and> glob ev (args ! 1) = Inr [] \<longrightarrow>
        main ev fs argv = \<lparr>exitCode = 0, final = start fs, summary = None\<rparr>"
    by (auto simp add: main_def mainArgs_def)
  have c: "argv = [] \<or> length (hd argv) < 2 \<or> hd argv ! 0 \<noteq> CHR ''-'' \<longrightarrow>
        flagParse ev defaultFlags argv = Parsed defaultFlags argv"
    by (cases argv) (auto simp add: flagParse_Nil flagParse_positional)
  have d: "name \<notin> set [''v'', ''s'', ''g'', ''f'', ''h'', ''t'', ''help''] \<and> name \<noteq> []
        \<and> hd name \<noteq> CHR ''-'' \<and> hd name \<noteq> CHR ''='' \<and> CHR ''='' \<notin> set name \<longrightarrow>
        flagParse ev fl0 ((CHR ''-'' # name) # rest) = ParseFailed"
    using flagParse_undefined [of name ev fl0 rest] by blast
  from a b c d flagParse_help [of ev fl0 rest] show ?thesis by blast
qed

theorem exit_code_witness:
  "flagParse badPatternEnv defaultFlags [''-v'', ''-t'', ''5s'', ''--g=false'', ''./p'', ''*.in'']
     = Parsed (defaultFlags\<lparr>verbose := True, timeout := 5000000000\<rparr>) [''./p'', ''*.in'']
   \<and> 2 \<le> length [''./p'', ''*.in''] \<and> glob badPatternEnv ([''./p'', ''*.in''] ! 1) = Inr []
   \<and> main badPatternEnv (disk []) [''-v'', ''-t'', ''5s'', ''--g=false'', ''./p'', ''*.in'']
       = \<lparr>exitCode = 0, final = start (disk []), summary = None\<rparr>
   \<and> exitCode (main badPatternEnv (disk []) [''./p'']) = 1
   \<and> exitCode (main badPatternEnv (disk []) [''-help'']) = 0
   \<and> exitCode (main badPatternEnv (disk []) [''-t'']) = 2
   \<and> exitCode (main badPatternEnv (disk []) [''-t'', ''soon'', ''./p'', ''*.in'']) = 2
   \<and> exitCode (main badPatternEnv (disk []) [''-g=maybe'', ''./p'', ''*.in'']) = 2
   \<and> exitCode (main badPatternEnv (disk []) [''---g'', ''./p'', ''*.in'']) = 2
   \<and> exitCode (main badPatternEnv (disk []) [''--'', ''-x'', ''*.in'']) = 0"
  using exit_code [of badPatternEnv "disk []"
      "[''-v'', ''-t'', ''5s'', ''--g=false'', ''./p'', ''*.in'']"
      "defaultFlags\<lparr>verbose := True, timeout := 5000000000\<rparr>" "[''./p'', ''*.in'']"]
  by (simp add: flag_defs mainArgs_def badPatternEnv_def durations_def)

subsection \<open>Counters of the summary\<close>

lemma countVerdict_append:
  "countVerdict v (rep @ [(f, w)]) = countVerdict v rep + (if w = v then 1 else 0)"
  by (simp add: countVerdict_def)

lemma counted_runTest: "counted fl st \<Longrightarrow> counted fl (runTest fl ev prog st f)"
  by (auto simp add: counted_def runTest_def generateTest_def checkTest_def execute_def say_def
      sayExecError_def countVerdict_append Let_def
      split: prod.splits option.splits sum.splits execError.splits)

lemma counted_runTests: "counted fl st \<Longrightarrow> counted fl (runTests fl ev prog st files)"
  unfolding runTests_def
  by (induction files arbitrary: st) (simp_all add: counted_runTest)

lemma counted_start: "counted fl (start fs)"
  by (simp add: counted_def start_def countVerdict_def)

lemma counted_main: "counted fl (final (mainArgs fl ev fs args))"
  by (simp add: mainArgs_def Let_def counted_start counted_runTests split: sum.splits)

text \<open>
  Claim C5, as stated, fails in generate mode: a generated test is counted in
  \<open>generatedFiles\<close>, not in \<open>passedTests\<close>.  After one test with verdict \<open>GEN\<close> the passed
  count is 0, not 1.
\<close>

theorem counters_counterexample:
  "flagParse echoEnv defaultFlags [''-g'', ''./p'', ''*.in''] = Parsed generateFlags [''./p'', ''*.in'']
   \<and> generate generateFlags
   \<and> report (final (main echoEnv (disk [(''a.in'', ''3'' @ [LF])]) [''-g'', ''./p'', ''*.in'']))
       = [(''a.in'', GEN)]
   \<and> passedTests (final (main echoEnv (disk [(''a.in'', ''3'' @ [LF])])
         [''-g'', ''./p'', ''*.in''])) = 0
   \<and> summary (main echoEnv (disk [(''a.in'', ''3'' @ [LF])]) [''-g'', ''./p'', ''*.in''])
       = Some (GenerateSummary 1 0 1)"
  by (simp add: world_defs file_defs driver_defs flag_defs)

text \<open>
  Claim C5, amended.  The passed count equals the number of tests with verdict \<open>AC\<close> in
  check mode and the number of tests with verdict \<open>SKIP\<close> in generate mode; the tests with
  verdict \<open>GEN\<close> are counted by the separate counter of generated files.  The summary
  prints these counters.
\<close>

theorem counters_match_report:
  "passedTests (final (mainArgs fl ev fs args)) =
     countVerdict (if generate fl then SKIP else AC) (report (final (mainArgs fl ev fs args)))
   \<and> generatedFiles (final (mainArgs fl ev fs args)) =
     countVerdict GEN (report (final (mainArgs fl ev fs args)))
   \<and> (summary (mainArgs fl ev fs args) = Some s \<longrightarrow>
        (generate fl \<longrightarrow> (\<exists>n. s = GenerateSummary
           (countVerdict GEN (report (final (mainArgs fl ev fs args))))
           (countVerdict SKIP (report (final (mainArgs fl ev fs args)))) n))
        \<and> (\<not> generate fl \<longrightarrow> (\<exists>n t a k. s = CheckSummary
           (countVerdict AC (report (final (mainArgs fl ev fs args)))) n t a k)))
   \<and> (flagParse ev defaultFlags argv = Parsed fl args \<longrightarrow>
        main ev fs argv = mainArgs fl ev fs args)"
proof -
  have m: "flagParse ev defaultFlags argv = Parsed fl args \<longrightarrow>
        main ev fs argv = mainArgs fl ev fs args"
    by (simp add: main_def)
  have c: "counted fl (final (mainArgs fl ev fs args))" by (rule counted_main)
  have "summary (mainArgs fl ev fs args) = Some s \<Longrightarrow>
          s = summarize fl (length (projr (glob ev (args ! 1)))) (final (mainArgs fl ev fs args))"
    by (auto simp add: mainArgs_def Let_def split: sum.splits if_splits)
  then show ?thesis using c m by (auto simp add: counted_def summarize_def)
qed

theorem counters_match_report_witness:
  "flagParse echoEnv defaultFlags [''-g'', ''./p'', ''*.in''] = Parsed generateFlags [''./p'', ''*.in'']
   \<and> summary (main echoEnv (disk [(''a.in'', ''3'' @ [LF])]) [''-g'', ''./p'', ''*.in''])
     = Some (GenerateSummary 1 0 1)
   \<and> generate generateFlags
   \<and> countVerdict SKIP (report (final (main echoEnv (disk [(''a.in'', ''3'' @ [LF])])
         [''-g'', ''./p'', ''*.in'']))) = 0"
  using counters_match_report [of generateFlags echoEnv "disk [(''a.in'', ''3'' @ [LF])]"
      "[''./p'', ''*.in'']" "GenerateSummary 1 0 1" "[''-g'', ''./p'', ''*.in'']"]
  by (simp add: world_defs file_defs driver_defs flag_defs countVerdict_def)

subsection \<open>Execution time\<close>

lemma checkTest_fsys: "fsys (checkTest fl ev prog st f) = fsys st"
  by (auto simp add: checkTest_def execute_def say_def sayExecError_def Let_def
      split: prod.splits option.splits sum.splits execError.splits)

lemma checkTest_calls: "execCalls (checkTest fl ev prog st f) = Suc (execCalls st)"
  by (auto simp add: checkTest_def execute_def say_def sayExecError_def Let_def
      split: prod.splits option.splits sum.splits execError.splits)

lemma checkTest_time:
  "totalExecutionTime (checkTest fl ev prog st f) =
     totalExecutionTime st
     + fst (snd (executeProgram ev (fsys st) (execCalls st) prog f (timeout fl) (useHash fl)))"
  by (auto simp add: checkTest_def execute_def say_def sayExecError_def Let_def
      split: prod.splits option.splits sum.splits execError.splits)

lemma generateTest_time:
  "IsNotExist (osStat (fsys st) (outputFile f (useHash fl))) \<or> forceGen fl \<Longrightarrow>
   totalExecutionTime (generateTest fl ev prog st f) =
     totalExecutionTime st
     + fst (snd (executeProgram ev (fsys st) (execCalls st) prog f (timeout fl) (useHash fl)))"
  by (auto simp add: generateTest_def execute_def say_def sayExecError_def Let_def
      split: prod.splits option.splits sum.splits execError.splits)

lemma runTest_check: "\<not> generate fl \<Longrightarrow> runTest fl ev prog = checkTest fl ev prog"
  by (intro ext) (simp add: runTest_def)

lemma check_foldl_time:
  "totalExecutionTime (foldl (checkTest fl ev prog) st files) =
     totalExecutionTime st
     + (\<Sum>i<length files. fst (snd (executeProgram ev (fsys st) (execCalls st + i) prog
          (files ! i) (timeout fl) (useHash fl))))"
proof (induction files arbitrary: st)
  case Nil
  show ?case by simp
next
  case (Cons f files)
  have "totalExecutionTime (foldl (checkTest fl ev prog) st (f # files)) =
          totalExecutionTime (foldl (checkTest fl ev prog) (checkTest fl ev prog st f) files)"
    by simp
  also have "\<dots> = totalExecutionTime (checkTest fl ev prog st f)
      + (\<Sum>i<length files. fst (snd (executeProgram ev (fsys st) (Suc (execCalls st) + i) prog
          (files ! i) (timeout fl) (useHash fl))))"
    by (simp only: Cons.IH checkTest_fsys checkTest_calls)
  also have "\<dots> = totalExecutionTime st
      + (\<Sum>i<length (f # files). fst (snd (executeProgram ev (fsys st) (execCalls st + i) prog
          ((f # files) ! i) (timeout fl) (useHash fl))))"
    by (simp add: checkTest_time sum.lessThan_Suc_shift add.assoc del: sum.lessThan_Suc)
  finally show ?case .
qed

lemma check_runTests_time:
  assumes "\<not> generate fl"
  shows "totalExecutionTime (runTests fl ev prog st files) =
           totalExecutionTime st
           + (\<Sum>i<length files. fst (snd (executeProgram ev (fsys st) (execCalls st + i) prog
                (files ! i) (timeout fl) (useHash fl))))"
  using assms by (simp add: runTests_def runTest_check check_foldl_time)

text \<open>
  Claim C8.  Whenever the executor runs, its elapsed time is added to the cumulative
  execution time, also when the execution fails with a timeout or an execution error.
  In check mode the cumulative time is therefore the sum of the elapsed times of all
  executions, and the average printed at the end is the cumulative time divided by the
  number of tests.  The division is guarded: \<open>summarize\<close> computes no average for zero
  tests, and with no input file \<open>main\<close> returns before the summary.
\<close>

theorem execution_time_summary:
  assumes "2 \<le> length args" and "glob ev (args ! 1) = Inr files"
    and "cumulative = (\<Sum>i<length files. fst (snd (executeProgram ev fs i (args ! 0) (files ! i)
                    (timeout fl) (useHash fl))))"
  shows "(\<forall>st f out t err.
            (generate fl \<longrightarrow>
               osStat (fsys st) (outputFile f (useHash fl)) = StatNotExist \<or> forceGen fl)
            \<and> executeProgram ev (fsys st) (execCalls st) (args ! 0) f (timeout fl) (useHash fl)
                 = (out, t, Some err) \<longrightarrow>
            totalExecutionTime (runTest fl ev (args ! 0) st f) = totalExecutionTime st + t)
         \<and> (\<not> generate fl \<longrightarrow>
               totalExecutionTime (final (mainArgs fl ev fs args)) = cumulative
               \<and> (files \<noteq> [] \<longrightarrow>
                     (\<exists>passed failed. summary (mainArgs fl ev fs args) =
                        Some (CheckSummary passed (length files) cumulative
                                (Some (divDuration cumulative (of_nat (length files)))) failed)))
               \<and> (\<forall>st. \<exists>passed failed.
                     summarize fl 0 st = CheckSummary passed 0 (totalExecutionTime st) None failed))
         \<and> (files = [] \<longrightarrow> summary (mainArgs fl ev fs args) = None)
         \<and> (flagParse ev defaultFlags argv = Parsed fl args \<longrightarrow>
               main ev fs argv = mainArgs fl ev fs args)"
proof -
  have m: "flagParse ev defaultFlags argv = Parsed fl args \<longrightarrow>
               main ev fs argv = mainArgs fl ev fs args"
    by (simp add: main_def)
  have d: "\<forall>st f out t err.
            (generate fl \<longrightarrow>
               osStat (fsys st) (outputFile f (useHash fl)) = StatNotExist \<or> forceGen fl)
            \<and> executeProgram ev (fsys st) (execCalls st) (args ! 0) f (timeout fl) (useHash fl)
                 = (out, t, Some err) \<longrightarrow>
            totalExecutionTime (runTest fl ev (args ! 0) st f) = totalExecutionTime st + t"
    by (auto simp add: runTest_def checkTest_time generateTest_time IsNotExist_def)
  have c: "files = [] \<longrightarrow> summary (mainArgs fl ev fs args) = None"
    using assms(1,2) by (simp add: mainArgs_def)
  have "\<not> generate fl \<longrightarrow>
               totalExecutionTime (final (mainArgs fl ev fs args)) = cumulative
               \<and> (files \<noteq> [] \<longrightarrow>
                     (\<exists>passed failed. summary (mainArgs fl ev fs args) =
                        Some (CheckSummary passed (length files) cumulative
                                (Some (divDuration cumulative (of_nat (length files)))) failed)))
               \<and> (\<forall>st. \<exists>passed failed.
                     summarize fl 0 st = CheckSummary passed 0 (totalExecutionTime st) None failed)"
  proof
    assume chk: "\<not> generate fl"
    have t: "totalExecutionTime (runTests fl ev (args ! 0) (start fs) files) = cumulative"
      using chk assms(3) by (simp add: check_runTests_time) (simp add: start_def)
    have "totalExecutionTime (start fs) = 0" by (simp add: start_def)
    with assms(3) have t0: "files = [] \<Longrightarrow> totalExecutionTime (start fs) = cumulative" by simp
    have a: "totalExecutionTime (final (mainArgs fl ev fs args)) = cumulative"
      using assms(1,2) t t0 by (cases "files = []") (simp_all add: mainArgs_def Let_def)
    have b: "files \<noteq> [] \<longrightarrow>
          (\<exists>passed failed. summary (mainArgs fl ev fs args) =
             Some (CheckSummary passed (length files) cumulative
                     (Some (divDuration cumulative (of_nat (length files)))) failed))"
      using chk assms(1,2) t by (simp add: mainArgs_def Let_def summarize_def)
    have g: "\<forall>st. \<exists>passed failed.
          summarize fl 0 st = CheckSummary passed 0 (totalExecutionTime st) None failed"
      using chk by (simp add: summarize_def)
    from a b g show "totalExecutionTime (final (mainArgs fl ev fs args)) = cumulative
               \<and> (files \<noteq> [] \<longrightarrow>
                     (\<exists>passed failed. summary (mainArgs fl ev fs args) =
                        Some (CheckSummary passed (length files) cumulative
                                (Some (divDuration cumulative (of_nat (length files)))) failed)))
               \<and> (\<forall>st. \<exists>passed failed.
                     summarize fl 0 st = CheckSummary passed 0 (totalExecutionTime st) None failed)"
      by blast
  qed
  with d c m show ?thesis by blast
qed

lemma sum_two: "(\<Sum>i<2. g i) = g 0 + (g (Suc 0) :: 64 word)"
  by (simp add: numeral_2_eq_2)

theorem execution_time_summary_witness:
  "\<not> generate checkFlags \<and> 2 \<le> length [''./p'', ''*.in'']
   \<and> glob twoFiles ([''./p'', ''*.in''] ! 1) = Inr [''a.in'', ''b.in'']
   \<and> executeProgram twoFiles (disk [(''a.in'', ''3''), (''b.in'', ''4''), (''b.out'', ''4'')]) 0 ''./p''
       ''a.in'' (timeout checkFlags) (useHash checkFlags) = ([], 100000000, Some DeadlineExceeded)
   \<and> summary (mainArgs checkFlags twoFiles (disk [(''a.in'', ''3''), (''b.in'', ''4''), (''b.out'', ''4'')])
         [''./p'', ''*.in'']) = Some (CheckSummary 1 2 105000000 (Some 52500000) (Some 1))
   \<and> flagParse twoFiles defaultFlags [''./p'', ''*.in''] = Parsed checkFlags [''./p'', ''*.in'']
   \<and> summary (main twoFiles (disk [(''a.in'', ''3''), (''b.in'', ''4''), (''b.out'', ''4'')])
         [''./p'', ''*.in'']) = Some (CheckSummary 1 2 105000000 (Some 52500000) (Some 1))"
  using execution_time_summary [of "[''./p'', ''*.in'']" twoFiles "[''a.in'', ''b.in'']"
      105000000 "disk [(''a.in'', ''3''), (''b.in'', ''4''), (''b.out'', ''4'')]" checkFlags
      "[''./p'', ''*.in'']"]
  by (simp add: world_defs twoFiles_def file_defs trim_defs driver_defs flag_defs divDuration_def
      signed_divide_int_def sum_two)

subsection \<open>Reading files line by line\<close>

lemma scanLines_Nil: "scanLines [] = Inr []"
  by (simp add: scanLines.simps)

lemma scanLines_last:
  assumes "data \<noteq> []" and "LF \<notin> set data"
  shows "scanLines data = (if MaxScanTokenSize \<le> length data then Inl ErrTooLong
                           else Inr [dropCR data])"
proof -
  have tw: "takeWhile (\<lambda>c. c \<noteq> LF) data = data"
    using assms(2) by (auto simp add: takeWhile_eq_all_conv)
  have dw: "dropWhile (\<lambda>c. c \<noteq> LF) data = []"
    using assms(2) by (auto simp add: dropWhile_eq_Nil_conv)
  show ?thesis using assms(1) by (subst scanLines.simps) (simp add: Let_def tw dw)
qed

lemma scanLines_line:
  assumes "LF \<notin> set line"
  shows "scanLines (line @ LF # rest) =
           (if MaxScanTokenSize \<le> length line then Inl ErrTooLong
            else case scanLines rest of Inl e \<Rightarrow> Inl e
                 | Inr tokens \<Rightarrow> Inr (dropCR line # tokens))"
proof -
  have tw: "takeWhile (\<lambda>c. c \<noteq> LF) (line @ LF # rest) = line"
    using assms by (induction line) auto
  have dw: "dropWhile (\<lambda>c. c \<noteq> LF) (line @ LF # rest) = LF # rest"
    using assms by (induction line) auto
  show ?thesis by (subst scanLines.simps) (simp add: Let_def tw dw)
qed

lemma split_at_LF:
  "LF \<in> set data \<Longrightarrow> \<exists>line rest. data = line @ LF # rest \<and> LF \<notin> set line"
  by (metis split_list_first)

lemma joinLines_Nil: "joinLines [] = []"
  by (simp add: joinLines_def TrimSuffix_def)

lemma joinLines_single: "joinLines [t] = t"
  by (simp add: joinLines_def TrimSuffix_def suffix_def)

lemma concat_lines_last:
  "tokens \<noteq> [] \<Longrightarrow> \<exists>body. concat (map (\<lambda>t. t @ [LF]) tokens) = body @ [LF]"
  by (induction tokens rule: rev_induct) auto

lemma joinLines_Cons:
  assumes "tokens \<noteq> []"
  shows "joinLines (t # tokens) = t @ LF # joinLines tokens"
proof -
  obtain body where b: "concat (map (\<lambda>t. t @ [LF]) tokens) = body @ [LF]"
    using concat_lines_last [OF assms] by blast
  then show ?thesis by (simp add: joinLines_def TrimSuffix_def suffix_def)
qed

lemma readFile_joinLines:
  "readFile fs name = Inr s \<longleftrightarrow>
     (\<exists>data tokens. contents fs name = Some data \<and> openErr fs name = None
        \<and> scanLines data = Inr tokens \<and> s = joinLines tokens)"
  by (auto simp add: readFile_def osOpen_def joinLines_def split: option.splits sum.splits)


lemma lines_induct [case_names Empty Last Line]:
  assumes "P []"
    and "\<And>data. data \<noteq> [] \<Longrightarrow> LF \<notin> set data \<Longrightarrow> P data"
    and "\<And>line rest. LF \<notin> set line \<Longrightarrow> P rest \<Longrightarrow> P (line @ LF # rest)"
  shows "P data"
proof (induction data rule: length_induct)
  case (1 data)
  show ?case
  proof (cases "LF \<in> set data")
    case True
    then obtain line rest where d: "data = line @ LF # rest" and l: "LF \<notin> set line"
      using split_at_LF by blast
    then have "length rest < length data" by simp
    with 1 have "P rest" by blast
    with d l assms(3) show ?thesis by blast
  next
    case False
    with assms(1,2) show ?thesis by (cases "data = []") auto
  qed
qed

lemma dropCR_subset: "set (dropCR x) \<subseteq> set x"
  by (auto simp add: dropCR_def dest: in_set_butlastD)

lemma dropCR_Nil_iff: "dropCR x = [] \<longleftrightarrow> x = [] \<or> x = [CR]"
proof (cases x rule: rev_cases)
  case Nil
  then show ?thesis by (simp add: dropCR_def)
next
  case (snoc ys y)
  then show ?thesis by (auto simp add: dropCR_def)
qed

lemma scanLines_no_LF:
  "scanLines data = Inr tokens \<Longrightarrow> t \<in> set tokens \<Longrightarrow> LF \<notin> set t"
proof (induction data arbitrary: tokens rule: lines_induct)
  case Empty
  then show ?case by (simp add: scanLines_Nil)
next
  case (Last data)
  then show ?case
    using dropCR_subset [of data] by (auto simp add: scanLines_last split: if_splits)
next
  case (Line line rest)
  then show ?case
    using dropCR_subset [of line]
    by (auto simp add: scanLines_line split: if_splits sum.splits)
qed

lemma scanLines_Nil_iff: "scanLines data = Inr [] \<longleftrightarrow> data = []"
proof (induction data rule: lines_induct)
  case Empty
  then show ?case by (simp add: scanLines_Nil)
next
  case (Last data)
  then show ?case by (simp add: scanLines_last)
next
  case (Line line rest)
  then show ?case by (simp add: scanLines_line split: sum.splits)
qed

lemma scanLines_blank_iff:
  "scanLines data = Inr [[]] \<longleftrightarrow> data = [LF] \<or> data = [CR, LF] \<or> data = [CR]"
proof (induction data rule: lines_induct)
  case Empty
  then show ?case by (simp add: scanLines_Nil)
next
  case (Last data)
  then show ?case
    by (auto simp add: scanLines_last dropCR_Nil_iff MaxScanTokenSize_def)
next
  case (Line line rest)
  have "scanLines (line @ LF # rest) = Inr [[]] \<longleftrightarrow>
          \<not> MaxScanTokenSize \<le> length line \<and> dropCR line = [] \<and> scanLines rest = Inr []"
    using Line(1) by (auto simp add: scanLines_line split: sum.splits)
  also have "\<dots> \<longleftrightarrow> (line = [] \<or> line = [CR]) \<and> rest = []"
    by (auto simp add: dropCR_Nil_iff scanLines_Nil_iff MaxScanTokenSize_def)
  also have "\<dots> \<longleftrightarrow> line @ LF # rest = [LF] \<or> line @ LF # rest = [CR, LF]
                        \<or> line @ LF # rest = [CR]"
    by (auto simp add: append_eq_Cons_conv)
  finally show ?case .
qed

lemma joinLines_Nil_iff: "joinLines tokens = [] \<longleftrightarrow> tokens = [] \<or> tokens = [[]]"
proof (cases tokens)
  case Nil
  then show ?thesis by (simp add: joinLines_Nil)
next
  case (Cons t ts)
  then show ?thesis
    by (cases "ts = []") (simp_all add: joinLines_single joinLines_Cons)
qed

lemma joinLines_ends_LF:
  assumes "\<forall>t\<in>set tokens. LF \<notin> set t"
  shows "(joinLines tokens \<noteq> [] \<and> last (joinLines tokens) = LF)
           \<longleftrightarrow> (2 \<le> length tokens \<and> last tokens = [])"
  using assms
proof (induction tokens)
  case Nil
  then show ?case by (simp add: joinLines_Nil)
next
  case (Cons t tokens)
  show ?case
  proof (cases "tokens = []")
    case True
    with Cons.prems show ?thesis by (auto simp add: joinLines_single dest: last_in_set)
  next
    case False
    have ih: "(joinLines tokens \<noteq> [] \<and> last (joinLines tokens) = LF)
                \<longleftrightarrow> (2 \<le> length tokens \<and> last tokens = [])"
      using Cons by simp
    have "(joinLines (t # tokens) \<noteq> [] \<and> last (joinLines (t # tokens)) = LF)
            \<longleftrightarrow> (joinLines tokens = [] \<or> (joinLines tokens \<noteq> [] \<and> last (joinLines tokens) = LF))"
      using False by (auto simp add: joinLines_Cons)
    also have "\<dots> \<longleftrightarrow> (tokens = [[]] \<or> (2 \<le> length tokens \<and> last tokens = []))"
      using False ih joinLines_Nil_iff [of tokens] by blast
    also have "\<dots> \<longleftrightarrow> last tokens = []"
    proof (cases tokens)
      case Nil
      with False show ?thesis by simp
    next
      case (Cons u us)
      then show ?thesis by (cases us) auto
    qed
    also have "\<dots> \<longleftrightarrow> (2 \<le> length (t # tokens) \<and> last (t # tokens) = [])"
      using False by (cases tokens) auto
    finally show ?thesis .
  qed
qed

lemma scanLines_blank_last:
  "scanLines data = Inr tokens \<Longrightarrow>
   (2 \<le> length tokens \<and> last tokens = [])
     \<longleftrightarrow> (suffix [LF, LF] data \<or> suffix [LF, CR, LF] data \<or> suffix [LF, CR] data)"
proof (induction data arbitrary: tokens rule: lines_induct)
  case Empty
  then show ?case by (simp add: scanLines_Nil)
next
  case (Last data)
  have "\<not> suffix [LF, LF] data" "\<not> suffix [LF, CR, LF] data" "\<not> suffix [LF, CR] data"
    using Last(2) by (auto simp add: suffix_def)
  with Last show ?case by (auto simp add: scanLines_last split: if_splits)
next
  case (Line line rest)
  from Line(3,1) obtain tokens' where r: "scanLines rest = Inr tokens'"
    and t: "tokens = dropCR line # tokens'"
    by (auto simp add: scanLines_line split: if_splits sum.splits)
  have sfx: "\<And>x. suffix (LF # x) (line @ LF # rest) \<longleftrightarrow> suffix (LF # x) rest \<or> x = rest"
    using Line(1)
    by (auto simp add: suffix_append suffix_Cons append_eq_Cons_conv Cons_eq_append_conv
        dest: set_mono_suffix)
  show ?case
  proof (cases "length tokens' < 2")
    case True
    note short = this
    have nb: "\<not> (suffix [LF, LF] rest \<or> suffix [LF, CR, LF] rest \<or> suffix [LF, CR] rest)"
      using Line.IH [OF r] short by auto
    have "(2 \<le> length tokens \<and> last tokens = []) \<longleftrightarrow> tokens' = [[]]"
      using short t by (cases tokens') auto
    also have "\<dots> \<longleftrightarrow> rest = [LF] \<or> rest = [CR, LF] \<or> rest = [CR]"
      using r scanLines_blank_iff [of rest] by simp
    also have "\<dots> \<longleftrightarrow> (suffix [LF, LF] (line @ LF # rest)
        \<or> suffix [LF, CR, LF] (line @ LF # rest) \<or> suffix [LF, CR] (line @ LF # rest))"
      using nb by (auto simp add: sfx)
    finally show ?thesis .
  next
    case False
    then have "(2 \<le> length tokens \<and> last tokens = []) \<longleftrightarrow> (2 \<le> length tokens' \<and> last tokens' = [])"
      using t by auto
    also have "\<dots> \<longleftrightarrow> (suffix [LF, LF] rest \<or> suffix [LF, CR, LF] rest \<or> suffix [LF, CR] rest)"
      by (rule Line.IH [OF r])
    also have "\<dots> \<longleftrightarrow> (suffix [LF, LF] (line @ LF # rest)
        \<or> suffix [LF, CR, LF] (line @ LF # rest) \<or> suffix [LF, CR] (line @ LF # rest))"
    proof -
      have "rest \<noteq> [LF]" "rest \<noteq> [CR, LF]" "rest \<noteq> [CR]"
        using False r scanLines_blank_iff [of rest] by auto
      then show ?thesis by (auto simp add: sfx)
    qed
    finally show ?thesis .
  qed
qed


lemma dropCR_ends_CR:
  assumes "suffix [CR] (dropCR x)"
  shows "suffix [CR, CR] x"
proof (cases x rule: rev_cases)
  case Nil
  with assms show ?thesis by (simp add: dropCR_def)
next
  case (snoc ys y)
  with assms show ?thesis by (auto simp add: dropCR_def suffix_def split: if_splits)
qed

lemma no_CRLF_in_line: "LF \<notin> set x \<Longrightarrow> \<not> sublist [CR, LF] x"
  by (auto dest: set_mono_sublist)

lemma scanLines_CRLF:
  "scanLines data = Inr tokens \<Longrightarrow> sublist [CR, LF] (joinLines tokens)
     \<Longrightarrow> sublist [CR, CR, LF] data"
proof (induction data arbitrary: tokens rule: lines_induct)
  case Empty
  then show ?case by (simp add: scanLines_Nil joinLines_Nil)
next
  case (Last data)
  then have "joinLines tokens = dropCR data"
    by (auto simp add: scanLines_last joinLines_single split: if_splits)
  moreover have "LF \<notin> set (dropCR data)" using Last(2) dropCR_subset [of data] by blast
  ultimately show ?case using Last.prems(2) no_CRLF_in_line by simp
next
  case (Line line rest)
  from Line(3,1) obtain tokens' where r: "scanLines rest = Inr tokens'"
    and t: "tokens = dropCR line # tokens'"
    by (auto simp add: scanLines_line split: if_splits sum.splits)
  have nl: "LF \<notin> set (dropCR line)" using Line(1) dropCR_subset [of line] by blast
  show ?case
  proof (cases "tokens' = []")
    case True
    with t Line.prems(2) nl no_CRLF_in_line show ?thesis by (simp add: joinLines_single)
  next
    case False
    then have j: "joinLines tokens = dropCR line @ LF # joinLines tokens'"
      using t by (simp add: joinLines_Cons)
    from Line.prems(2) have "sublist [CR, LF] (dropCR line @ LF # joinLines tokens')"
      by (simp add: j)
    then consider (left) "sublist [CR, LF] (dropCR line)"
      | (right) "sublist [CR, LF] (LF # joinLines tokens')"
      | (across) xs1 xs2 where "[CR, LF] = xs1 @ xs2" "suffix xs1 (dropCR line)"
          "prefix xs2 (LF # joinLines tokens')"
      by (auto simp add: sublist_append)
    then show ?thesis
    proof cases
      case left
      with nl no_CRLF_in_line show ?thesis by blast
    next
      case right
      then have "sublist [CR, LF] (joinLines tokens')"
        by (simp add: sublist_Cons_right)
      then have "sublist [CR, CR, LF] rest" by (rule Line.IH [OF r])
      then obtain ps ss where "rest = ps @ [CR, CR, LF] @ ss" by (auto simp add: sublist_def)
      then have "line @ LF # rest = (line @ LF # ps) @ [CR, CR, LF] @ ss" by simp
      then show ?thesis unfolding sublist_def by blast
    next
      case across
      from across(1) have "xs1 = [] \<and> xs2 = [CR, LF] \<or> xs1 = [CR] \<and> xs2 = [LF]
          \<or> xs1 = [CR, LF] \<and> xs2 = []"
        by (auto simp add: Cons_eq_append_conv)
      then have "suffix [CR] (dropCR line)"
        using across(2,3) nl by (auto dest: set_mono_suffix)
      then have "suffix [CR, CR] line" by (rule dropCR_ends_CR)
      then obtain ps where "line = ps @ [CR, CR]" by (auto simp add: suffix_def)
      then have "line @ LF # rest = ps @ [CR, CR, LF] @ rest" by simp
      then show ?thesis unfolding sublist_def by blast
    qed
  qed
qed

lemma dropCR_no_CR: "CR \<notin> set x \<Longrightarrow> dropCR x = x"
  by (auto simp add: dropCR_def dest: last_in_set)

lemma TrimSuffix_append_ne:
  assumes "zs \<noteq> []"
  shows "TrimSuffix (ys @ zs) [c] = ys @ TrimSuffix zs [c]"
proof -
  obtain us u where z: "zs = us @ [u]" using assms by (cases zs rule: rev_cases) auto
  show ?thesis by (simp add: TrimSuffix_def z suffix_def)
qed

lemma scanLines_no_CR:
  "scanLines data = Inr tokens \<Longrightarrow> CR \<notin> set data \<Longrightarrow> joinLines tokens = TrimSuffix data [LF]"
proof (induction data arbitrary: tokens rule: lines_induct)
  case Empty
  then show ?case by (simp add: scanLines_Nil joinLines_Nil TrimSuffix_def)
next
  case (Last data)
  have "\<not> suffix [LF] data" using Last(2) by (auto simp add: suffix_def)
  with Last show ?case
    by (auto simp add: scanLines_last joinLines_single dropCR_no_CR TrimSuffix_def split: if_splits)
next
  case (Line line rest)
  from Line(3,1) obtain tokens' where r: "scanLines rest = Inr tokens'"
    and t: "tokens = dropCR line # tokens'"
    by (auto simp add: scanLines_line split: if_splits sum.splits)
  have d: "dropCR line = line" using Line.prems(2) by (simp add: dropCR_no_CR)
  show ?case
  proof (cases "rest = []")
    case True
    with r have "tokens' = []" by (simp add: scanLines_Nil)
    with t d True show ?thesis
      using TrimSuffix_append [of line "[LF]"] by (simp add: joinLines_single)
  next
    case False
    with r have "tokens' \<noteq> []" using scanLines_Nil_iff [of rest] by auto
    then have "joinLines tokens = line @ LF # joinLines tokens'"
      using t d by (simp add: joinLines_Cons)
    also have "joinLines tokens' = TrimSuffix rest [LF]"
      using Line.IH [OF r] Line.prems(2) by simp
    also have "line @ LF # TrimSuffix rest [LF] = TrimSuffix (line @ LF # rest) [LF]"
      using TrimSuffix_append_ne [of rest "line @ [LF]" LF] False by simp
    finally show ?thesis .
  qed
qed


lemma checkTest_verdict:
  assumes "executeProgram ev (fsys st) (execCalls st) prog f (timeout fl) (useHash fl) = (actual, t, None)"
    and "readFile (fsys st) (outputFile f (useHash fl)) = Inr expected"
  shows "checkTest fl ev prog st f =
           (if TrimSpace actual = TrimSpace expected
            then say f AC (st\<lparr>totalExecutionTime := totalExecutionTime st + t,
                               execCalls := Suc (execCalls st),
                               passedTests := Suc (passedTests st)\<rparr>)
            else say f WA (st\<lparr>totalExecutionTime := totalExecutionTime st + t,
                               execCalls := Suc (execCalls st)\<rparr>))"
  using assms by (simp add: checkTest_def execute_def)

lemma scanLines_CRLF_terminator:
  assumes "LF \<notin> set line" and "\<not> suffix [CR] line"
    and "scanLines (line @ CR # LF # rest) = Inr tokens"
  shows "scanLines (line @ LF # rest) = Inr tokens"
proof -
  have l: "LF \<notin> set (line @ [CR])" using assms(1) by simp
  have d1: "dropCR (line @ [CR]) = line" by (simp add: dropCR_def)
  have d2: "dropCR line = line" using assms(2) by (cases line rule: rev_cases) (auto simp add: dropCR_def)
  from assms(3) have "scanLines ((line @ [CR]) @ LF # rest) = Inr tokens" by simp
  then show ?thesis
    unfolding scanLines_line [OF l] scanLines_line [OF assms(1)] d1 d2
    by (auto split: if_splits)
qed

text \<open>
  Claim C9, as stated, fails: \<open>TrimSuffix\<close> drops one line feed only, so a file that ends
  in an empty line is returned with a line feed at its end; and \<open>dropCR\<close> drops one
  carriage return only, so a line that ends in two of them keeps one before its line
  feed.
\<close>

theorem readFile_counterexample:
  "readFile (disk [(''a.in'', ''a'' @ [LF, LF])]) ''a.in'' = Inr (''a'' @ [LF])
   \<and> readFile (disk [(''b.in'', ''a'' @ [CR, CR, LF] @ ''b'')]) ''b.in'' = Inr (''a'' @ [CR, LF] @ ''b'')"
  by (simp add: world_defs file_defs)

text \<open>
  Claim C9, amended.  \<open>readFile\<close> rebuilds the content line by line and drops a single
  trailing line feed.  For every file it reads, the returned string ends in a line feed
  exactly when the file ends in an empty last line (LF LF, LF CR LF or LF CR at its
  end); it contains CR LF only where the file contains CR CR LF; a file without carriage
  returns is returned with one trailing line feed removed; and a line terminated by
  CR LF reads like the same line terminated by LF.  This string is what the child
  process receives on its standard input: \<open>executeProgram\<close> depends on the input file only
  through it, asks the environment for the child on this standard input only, and returns
  this very string when the child copies its input to its output.  It is also what check
  mode compares the actual output with.
\<close>

theorem readFile_normalizes:
  assumes "readFile fs name = Inr s" and "contents fs name = Some data"
  shows "((s \<noteq> [] \<and> last s = LF) \<longleftrightarrow>
            (suffix [LF, LF] data \<or> suffix [LF, CR, LF] data \<or> suffix [LF, CR] data))
         \<and> (sublist [CR, LF] s \<longrightarrow> sublist [CR, CR, LF] data)
         \<and> (CR \<notin> set data \<longrightarrow> s = TrimSuffix data [LF])
         \<and> (\<forall>line rest fs'. data = line @ CR # LF # rest \<and> LF \<notin> set line \<and> \<not> suffix [CR] line
               \<and> contents fs' name = Some (line @ LF # rest) \<and> openErr fs' name = None
               \<longrightarrow> readFile fs' name = Inr s)
         \<and> (\<forall>fs'. readFile fs' name = Inr s \<longrightarrow>
               executeProgram ev fs' n prog name t hash = executeProgram ev fs n prog name t hash)
         \<and> (\<forall>ev'. spawn ev' n prog s t = spawn ev n prog s t \<longrightarrow>
               executeProgram ev' fs n prog name t hash = executeProgram ev fs n prog name t hash)
         \<and> (cmdOutput (spawn ev n prog s t) = (s, None) \<longrightarrow>
               executeProgram ev fs n prog name t False = (s, elapsed (spawn ev n prog s t), None))
         \<and> (\<forall>st f actual t'. \<not> generate fl \<and> fsys st = fs \<and> outputFile f (useHash fl) = name
               \<and> executeProgram ev fs (execCalls st) prog f (timeout fl) (useHash fl)
                    = (actual, t', None)
               \<longrightarrow> report (runTest fl ev prog st f)
                    = report st @ [(f, if TrimSpace actual = TrimSpace s then AC else WA)])"
proof -
  from assms obtain tokens where sc: "scanLines data = Inr tokens" and s: "s = joinLines tokens"
    by (auto simp add: readFile_joinLines)
  have op: "openErr fs name = None" using assms(1) by (auto simp add: readFile_joinLines)
  have nl: "\<forall>t\<in>set tokens. LF \<notin> set t" using sc scanLines_no_LF by blast
  have a: "(s \<noteq> [] \<and> last s = LF) \<longleftrightarrow>
            (suffix [LF, LF] data \<or> suffix [LF, CR, LF] data \<or> suffix [LF, CR] data)"
    unfolding s joinLines_ends_LF [OF nl] by (rule scanLines_blank_last [OF sc])
  have b: "sublist [CR, LF] s \<longrightarrow> sublist [CR, CR, LF] data"
    unfolding s using scanLines_CRLF [OF sc] by blast
  have c: "CR \<notin> set data \<longrightarrow> s = TrimSuffix data [LF]"
    unfolding s using scanLines_no_CR [OF sc] by blast
  have d: "\<forall>line rest fs'. data = line @ CR # LF # rest \<and> LF \<notin> set line \<and> \<not> suffix [CR] line
               \<and> contents fs' name = Some (line @ LF # rest) \<and> openErr fs' name = None
               \<longrightarrow> readFile fs' name = Inr s"
  proof (intro allI impI)
    fix line rest and fs' :: filesys
    assume h: "data = line @ CR # LF # rest \<and> LF \<notin> set line \<and> \<not> suffix [CR] line
               \<and> contents fs' name = Some (line @ LF # rest) \<and> openErr fs' name = None"
    then have "scanLines (line @ LF # rest) = Inr tokens"
      using sc scanLines_CRLF_terminator [of line rest tokens] by simp
    with h s show "readFile fs' name = Inr s" by (auto simp add: readFile_joinLines)
  qed
  have e: "\<forall>fs'. readFile fs' name = Inr s \<longrightarrow>
               executeProgram ev fs' n prog name t hash = executeProgram ev fs n prog name t hash"
    using assms(1) by (simp add: executeProgram_def)
  have g: "\<forall>ev'. spawn ev' n prog s t = spawn ev n prog s t \<longrightarrow>
               executeProgram ev' fs n prog name t hash = executeProgram ev fs n prog name t hash"
    using assms(1) by (simp add: executeProgram_def)
  have h: "cmdOutput (spawn ev n prog s t) = (s, None) \<longrightarrow>
               executeProgram ev fs n prog name t False = (s, elapsed (spawn ev n prog s t), None)"
    using assms(1) by (simp add: executeProgram_def)
  have f: "\<forall>st f actual t'. \<not> generate fl \<and> fsys st = fs \<and> outputFile f (useHash fl) = name
               \<and> executeProgram ev fs (execCalls st) prog f (timeout fl) (useHash fl)
                    = (actual, t', None)
               \<longrightarrow> report (runTest fl ev prog st f)
                    = report st @ [(f, if TrimSpace actual = TrimSpace s then AC else WA)]"
    using assms(1) by (auto simp add: runTest_def checkTest_verdict say_def)
  from a b c d e f g h show ?thesis by blast
qed

theorem readFile_normalizes_witness:
  "readFile (disk [(''a.in'', ''3'' @ [LF, LF])]) ''a.in'' = Inr (''3'' @ [LF])
   \<and> contents (disk [(''a.in'', ''3'' @ [LF, LF])]) ''a.in'' = Some (''3'' @ [LF, LF])
   \<and> suffix [LF, LF] (''3'' @ [LF, LF])
   \<and> CR \<notin> set (''3'' @ [LF, LF])
   \<and> ''3'' @ [LF] = TrimSuffix (''3'' @ [LF, LF]) [LF]
   \<and> \<not> sublist [CR, LF] (''3'' @ [LF])
   \<and> cmdOutput (spawn echoEnv 0 ''./p'' (''3'' @ [LF]) 100000000) = (''3'' @ [LF], None)
   \<and> executeProgram echoEnv (disk [(''a.in'', ''3'' @ [LF, LF])]) 0 ''./p'' ''a.in'' 100000000 False
       = (''3'' @ [LF], 5000000, None)
   \<and> readFile (disk [(''b.in'', ''x'' @ [CR, LF] @ ''y'' @ [CR, LF])]) ''b.in'' = Inr (''x'' @ [LF] @ ''y'')
   \<and> executeProgram echoEnv (disk [(''b.in'', ''x'' @ [CR, LF] @ ''y'' @ [CR, LF])]) 0 ''./p'' ''b.in''
         100000000 False
       = (''x'' @ [LF] @ ''y'', 5000000, None)"
  using readFile_normalizes [of "disk [(''a.in'', ''3'' @ [LF, LF])]" "''a.in''" "''3'' @ [LF]"
      "''3'' @ [LF, LF]" echoEnv 0 "''./p''" 100000000]
    readFile_normalizes [of "disk [(''b.in'', ''x'' @ [CR, LF] @ ''y'' @ [CR, LF])]" "''b.in''"
      "''x'' @ [LF] @ ''y''" "''x'' @ [CR, LF] @ ''y'' @ [CR, LF]" echoEnv 0 "''./p''" 100000000]
  by (simp add: world_defs file_defs sublist_code cmdOutput_def cmdWait_def)

subsection \<open>Round trip in hash mode\<close>

lemma length_Sum256: "length (Sum256 m) = 32"
  by (simp add: Sum256_def Let_def bePutUint32_def split: prod.splits)

lemma length_EncodeToString: "length (EncodeToString src) = 2 * length src"
  by (induction src) (simp_all add: EncodeToString_def)

lemma set_EncodeToString: "set (EncodeToString src) \<subseteq> set hextable"
proof -
  have "\<And>b :: char. (of_char b :: nat) div 16 < 16"
  proof -
    fix b :: char
    have "(of_char b :: nat) < 256" by simp
    then show "(of_char b :: nat) div 16 < 16" by presburger
  qed
  moreover have "length hextable = 16" by (simp add: hextable_def)
  ultimately show ?thesis
    by (auto simp add: EncodeToString_def intro!: nth_mem)
qed

lemma hextable_plain: "LF \<notin> set hextable" "CR \<notin> set hextable"
  by (simp_all add: hextable_def)

lemma readFile_plain:
  assumes "contents fs name = Some d" and "openErr fs name = None"
    and "LF \<notin> set d" and "CR \<notin> set d" and "length d < MaxScanTokenSize"
  shows "readFile fs name = Inr d"
proof (cases "d = []")
  case True
  with assms(1,2) show ?thesis
    by (simp add: readFile_joinLines scanLines_Nil joinLines_Nil)
next
  case False
  then have "scanLines d = Inr [d]"
    using assms(3,4,5) by (simp add: scanLines_last dropCR_no_CR)
  with assms(1,2) show ?thesis by (simp add: readFile_joinLines joinLines_single)
qed

lemma readFile_hex:
  assumes "contents fs name = Some (EncodeToString (Sum256 m))" and "openErr fs name = None"
  shows "readFile fs name = Inr (EncodeToString (Sum256 m))"
proof (rule readFile_plain [OF assms])
  show "LF \<notin> set (EncodeToString (Sum256 m))"
    using set_EncodeToString hextable_plain(1) by blast
  show "CR \<notin> set (EncodeToString (Sum256 m))"
    using set_EncodeToString hextable_plain(2) by blast
  show "length (EncodeToString (Sum256 m)) < MaxScanTokenSize"
    by (simp add: length_EncodeToString length_Sum256 MaxScanTokenSize_def)
qed

lemma executeProgram_hash_success:
  assumes "executeProgram ev fs n prog f t True = (out, t', None)"
    and "readFile fs f = Inr input"
  shows "out = EncodeToString (Sum256 (stdout (spawn ev n prog input t)))"
  using assms
  by (auto simp add: executeProgram_def hashOutput_def Let_def split: option.splits if_splits)

lemma generateTest_GEN:
  assumes "report (generateTest fl ev prog st f) = report st @ [(f, GEN)]"
  shows "\<exists>out t. executeProgram ev (fsys st) (execCalls st) prog f (timeout fl) (useHash fl)
                   = (out, t, None)
               \<and> contents (fsys (generateTest fl ev prog st f)) (outputFile f (useHash fl)) = Some out
               \<and> openErr (fsys (generateTest fl ev prog st f)) = openErr (fsys st)
               \<and> (\<forall>name. name \<noteq> outputFile f (useHash fl) \<longrightarrow>
                    contents (fsys (generateTest fl ev prog st f)) name = contents (fsys st) name)"
  using assms
  by (auto simp add: generateTest_def execute_def say_def sayExecError_def writeFile_def Let_def
      split: if_splits prod.splits option.splits execError.splits)


text \<open>
  Two digests, computed step by step: the message \<open>abc\<close> of FIPS 180-4 and \<open>hello\<close>.
\<close>

lemma rotr32:
  assumes "n < 32"
  shows "word_rotr n (w :: 32 word) = drop_bit n w OR push_bit (32 - n) w"
proof (rule bit_word_eqI)
  fix k
  assume "k < LENGTH(32)"
  then have k: "k < 32" by simp
  have hi: "\<And>m. 32 \<le> m \<Longrightarrow> \<not> bit w m"
    using bit_imp_le_length [of w] by fastforce
  show "bit (word_rotr n w) k = bit (drop_bit n w OR push_bit (32 - n) w) k"
  proof (cases "k + n < 32")
    case True
    then have "(k + n) mod 32 = k + n" by simp
    moreover have "\<not> 32 - n \<le> k" using True by simp
    ultimately show ?thesis using k
      by (simp add: bit_word_rotr_iff bit_or_iff bit_drop_bit_eq bit_push_bit_iff add.commute)
  next
    case False
    then have m: "(k + n) mod 32 = k + n - 32" using k assms by (simp add: mod_if)
    have "\<not> bit w (n + k)" using False hi [of "n + k"] by simp
    moreover have "k - (32 - n) = k + n - 32" using False assms by simp
    moreover have "32 - n \<le> k" using False by simp
    ultimately show ?thesis using False k assms
      by (simp add: bit_word_rotr_iff bit_or_iff bit_drop_bit_eq bit_push_bit_iff m)
  qed
qed

lemma schedule_step:
  "0 < n \<Longrightarrow> schedule w n =
     schedule (w @ [(word_rotr 17 (w ! (length w - 2)) XOR word_rotr 19 (w ! (length w - 2))
                      XOR drop_bit 10 (w ! (length w - 2)))
                    + w ! (length w - 7)
                    + (word_rotr 7 (w ! (length w - 15)) XOR word_rotr 18 (w ! (length w - 15))
                      XOR drop_bit 3 (w ! (length w - 15)))
                    + w ! (length w - 16)]) (n - 1)"
  by (cases n) (simp_all add: Let_def)

lemma replicate_step: "0 < n \<Longrightarrow> replicate n x = x # replicate (n - 1) x"
  by (cases n) simp_all

lemma sha_abc_pad: "pad256 ''abc'' = [CHR 0x61, CHR 0x62, CHR 0x63, CHR 0x80, CHR 0x00, CHR 0x00, CHR 0x00, CHR 0x00, CHR 0x00, CHR 0x00, CHR 0x00, CHR 0x00, CHR 0x00, CHR 0x00, CHR 0x00, CHR 0x00, CHR 0x00, CHR 0x00, CHR 0x00, CHR 0x00, CHR 0x00, CHR 0x00, CHR 0x00, CHR 0x00, CHR 0x00, CHR 0x00, CHR 0x00, CHR 0x00, CHR 0x00, CHR 0x00, CHR 0x00, CHR 0x00, CHR 0x00, CHR 0x00, CHR 0x00, CHR 0x00, CHR 0x00, CHR 0x00, CHR 0x00, CHR 0x00, CHR 0x00, CHR 0x00, CHR 0x00, CHR 0x00, CHR 0x00, CHR 0x00, CHR 0x00, CHR 0x00, CHR 0x00, CHR 0x00, CHR 0x00, CHR 0x00, CHR 0x00, CHR 0x00, CHR 0x00, CHR 0x00, CHR 0x00, CHR 0x00, CHR 0x00, CHR 0x00, CHR 0x00, CHR 0x00, CHR 0x00, CHR 0x18]"
  by (simp add: pad256_def bePutUint64_def byte_def upt_rec Let_def replicate_step char_of_eq_iff)

lemma sha_abc_words: "map (\<lambda>i. beUint32 (drop (4 * i) [CHR 0x61, CHR 0x62, CHR 0x63, CHR 0x80, CHR 0x00, CHR 0x00, CHR 0x00, CHR 0x00, CHR 0x00, CHR 0x00, CHR 0x00, CHR 0x00, CHR 0x00, CHR 0x00, CHR 0x00, CHR 0x00, CHR 0x00, CHR 0x00, CHR 0x00, CHR 0x00, CHR 0x00, CHR 0x00, CHR 0x00, CHR 0x00, CHR 0x00, CHR 0x00, CHR 0x00, CHR 0x00, CHR 0x00, CHR 0x00, CHR 0x00, CHR 0x00, CHR 0x00, CHR 0x00, CHR 0x00, CHR 0x00, CHR 0x00, CHR 0x00, CHR 0x00, CHR 0x00, CHR 0x00, CHR 0x00, CHR 0x00, CHR 0x00, CHR 0x00, CHR 0x00, CHR 0x00, CHR 0x00, CHR 0x00, CHR 0x00, CHR 0x00, CHR 0x00, CHR 0x00, CHR 0x00, CHR 0x00, CHR 0x00, CHR 0x00, CHR 0x00, CHR 0x00, CHR 0x00, CHR 0x00, CHR 0x00, CHR 0x00, CHR 0x18])) [0..<16] = [1633837952, 0, 0, 0, 0, 0, 0, 0, 0, 0, 0, 0, 0, 0, 0, 24]"
  by (simp add: beUint32_def upt_rec)

lemma sha_abc_schedule: "schedule [1633837952, 0, 0, 0, 0, 0, 0, 0, 0, 0, 0, 0, 0, 0, 0, 24] 48 = [1633837952, 0, 0, 0, 0, 0, 0, 0, 0, 0, 0, 0, 0, 0, 0, 24, 1633837952, 983040, 2108187653, 1610613702, 1050508152, 25426944, 316456923, 3806512014, 3357629466, 3073800610, 3854317833, 845560923, 2636160359, 3968280267, 1881225380, 3552024379, 2482346367, 996719219, 2952069057, 4043988066, 176896406, 1924104970, 2483675966, 610538786, 2672279444, 4037431130, 1042573945, 657669027, 206005234, 2215296807, 2049510749, 106709978, 4215179723, 3430291419, 3118885940, 2845390439, 2226839261, 3256115900, 344409900, 2987358873, 4015503821, 3957764664, 2682456414, 2025622859, 2755645205, 1720397816, 4004225740, 313650667]"
  by (simp add: schedule_step rotr32 Let_def)

lemma sha_abc_rounds0: "foldl round256 (1779033703, 3144134277, 1013904242, 2773480762, 1359893119, 2600822924, 528734635, 1541459225) [(1116352408, 1633837952), (1899447441, 0), (3049323471, 0), (3921009573, 0), (961987163, 0), (1508970993, 0), (2453635748, 0), (2870763221, 0)] = (2241887071, 3842179968, 725748213, 71342698, 207977081, 2603066369, 1900175533, 1135452741)"
  by (simp add: rotr32)

lemma sha_abc_rounds1: "foldl round256 (2241887071, 3842179968, 725748213, 71342698, 207977081, 2603066369, 1900175533, 1135452741) [(3624381080, 0), (310598401, 0), (607225278, 0), (1426881987, 0), (1925078388, 0), (2162078206, 0), (2614888103, 0), (3248222580, 24)] = (2969183118, 3227803614, 3643992854, 2274437520, 123276749, 194179596, 1952073950, 509051416)"
  by (simp add: rotr32)

lemma sha_abc_rounds2: "foldl round256 (2969183118, 3227803614, 3643992854, 2274437520, 123276749, 194179596, 1952073950, 509051416) [(3835390401, 1633837952), (4022224774, 983040), (264347078, 2108187653), (604807628, 1610613702), (770255983, 1050508152), (1249150122, 25426944), (1555081692, 316456923), (1996064986, 3806512014)] = (3319086477, 2812502591, 3261099373, 2647034723, 2856829767, 1240797514, 3777329520, 2329577776)"
  by (simp add: rotr32)

lemma sha_abc_rounds3: "foldl round256 (3319086477, 2812502591, 3261099373, 2647034723, 2856829767, 1240797514, 3777329520, 2329577776) [(2554220882, 3357629466), (2821834349, 3073800610), (2952996808, 3854317833), (3210313671, 845560923), (3336571891, 2636160359), (3584528711, 3968280267), (113926993, 1881225380), (338241895, 3552024379)] = (1941126133, 3935906338, 2684750640, 909411017, 3126399250, 17410874, 2917635127, 1628611511)"
  by (simp add: rotr32)

lemma sha_abc_rounds4: "foldl round256 (1941126133, 3935906338, 2684750640, 909411017, 3126399250, 17410874, 2917635127, 1628611511) [(666307205, 2482346367), (773529912, 996719219), (1294757372, 2952069057), (1396182291, 4043988066), (1695183700, 176896406), (1986661051, 1924104970), (2177026350, 2483675966), (2456956037, 610538786)] = (2045405306, 1841658506, 887035396, 1101421745, 519815328, 4034403272, 2768741693, 124953195)"
  by (simp add: rotr32)

lemma sha_abc_rounds5: "foldl round256 (2045405306, 1841658506, 887035396, 1101421745, 519815328, 4034403272, 2768741693, 124953195) [(2730485921, 2672279444), (2820302411, 4037431130), (3259730800, 1042573945), (3345764771, 657669027), (3516065817, 206005234), (3600352804, 2215296807), (4094571909, 2049510749), (275423344, 106709978)] = (1098003085, 2706117808, 1923828625, 643991573, 4274981830, 3581645993, 3077922209, 2819559920)"
  by (simp add: rotr32)

lemma sha_abc_rounds6: "foldl round256 (1098003085, 2706117808, 1923828625, 643991573, 4274981830, 3581645993, 3077922209, 2819559920) [(430227734, 4215179723), (506948616, 3430291419), (659060556, 3118885940), (883997877, 2845390439), (958139571, 2226839261), (1322822218, 3256115900), (1537002063, 344409900), (1747873779, 2987358873)] = (952932627, 1053056219, 4117770203, 270520975, 1422599787, 3842906959, 2672265155, 1386118400)"
  by (simp add: rotr32)

lemma sha_abc_rounds7: "foldl round256 (952932627, 1053056219, 4117770203, 270520975, 1422599787, 3842906959, 2672265155, 1386118400) [(1955562222, 4015503821), (2024104815, 3957764664), (2227730452, 2682456414), (2361852424, 2025622859), (2428436474, 2755645205), (2756734187, 1720397816), (3204031479, 4004225740), (3329325298, 313650667)] = (1349398616, 3550093669, 80891244, 3093179625, 1593118500, 4212265488, 2492278198, 2518632596)"
  by (simp add: rotr32)

lemma sha_abc_rounds: "foldl round256 init256 (zip K256 [1633837952, 0, 0, 0, 0, 0, 0, 0, 0, 0, 0, 0, 0, 0, 0, 24, 1633837952, 983040, 2108187653, 1610613702, 1050508152, 25426944, 316456923, 3806512014, 3357629466, 3073800610, 3854317833, 845560923, 2636160359, 3968280267, 1881225380, 3552024379, 2482346367, 996719219, 2952069057, 4043988066, 176896406, 1924104970, 2483675966, 610538786, 2672279444, 4037431130, 1042573945, 657669027, 206005234, 2215296807, 2049510749, 106709978, 4215179723, 3430291419, 3118885940, 2845390439, 2226839261, 3256115900, 344409900, 2987358873, 4015503821, 3957764664, 2682456414, 2025622859, 2755645205, 1720397816, 4004225740, 313650667]) = (1349398616, 3550093669, 80891244, 3093179625, 1593118500, 4212265488, 2492278198, 2518632596)"
proof -
  have "zip K256 ([1633837952, 0, 0, 0, 0, 0, 0, 0, 0, 0, 0, 0, 0, 0, 0, 24, 1633837952, 983040, 2108187653, 1610613702, 1050508152, 25426944, 316456923, 3806512014, 3357629466, 3073800610, 3854317833, 845560923, 2636160359, 3968280267, 1881225380, 3552024379, 2482346367, 996719219, 2952069057, 4043988066, 176896406, 1924104970, 2483675966, 610538786, 2672279444, 4037431130, 1042573945, 657669027, 206005234, 2215296807, 2049510749, 106709978, 4215179723, 3430291419, 3118885940, 2845390439, 2226839261, 3256115900, 344409900, 2987358873, 4015503821, 3957764664, 2682456414, 2025622859, 2755645205, 1720397816, 4004225740, 313650667] :: u32 list) = [(1116352408, 1633837952), (1899447441, 0), (3049323471, 0), (3921009573, 0), (961987163, 0), (1508970993, 0), (2453635748, 0), (2870763221, 0)] @ [(3624381080, 0), (310598401, 0), (607225278, 0), (1426881987, 0), (1925078388, 0), (2162078206, 0), (2614888103, 0), (3248222580, 24)] @ [(3835390401, 1633837952), (4022224774, 983040), (264347078, 2108187653), (604807628, 1610613702), (770255983, 1050508152), (1249150122, 25426944), (1555081692, 316456923), (1996064986, 3806512014)] @ [(2554220882, 3357629466), (2821834349, 3073800610), (2952996808, 3854317833), (3210313671, 845560923), (3336571891, 2636160359), (3584528711, 3968280267), (113926993, 1881225380), (338241895, 3552024379)] @ [(666307205, 2482346367), (773529912, 996719219), (1294757372, 2952069057), (1396182291, 4043988066), (1695183700, 176896406), (1986661051, 1924104970), (2177026350, 2483675966), (2456956037, 610538786)] @ [(2730485921, 2672279444), (2820302411, 4037431130), (3259730800, 1042573945), (3345764771, 657669027), (3516065817, 206005234), (3600352804, 2215296807), (4094571909, 2049510749), (275423344, 106709978)] @ [(430227734, 4215179723), (506948616, 3430291419), (659060556, 3118885940), (883997877, 2845390439), (958139571, 2226839261), (1322822218, 3256115900), (1537002063, 344409900), (1747873779, 2987358873)] @ [(1955562222, 4015503821), (2024104815, 3957764664), (2227730452, 2682456414), (2361852424, 2025622859), (2428436474, 2755645205), (2756734187, 1720397816), (3204031479, 4004225740), (3329325298, 313650667)]"
    by (simp add: K256_def)
  then show ?thesis
    by (simp only: foldl_append init256_def sha_abc_rounds0 sha_abc_rounds1 sha_abc_rounds2 sha_abc_rounds3 sha_abc_rounds4 sha_abc_rounds5 sha_abc_rounds6 sha_abc_rounds7)
qed

lemma sha_abc_final: "EncodeToString (concat (map bePutUint32 [3128432319, 2399260650, 1094795486, 1571693091, 2953011619, 2518121116, 3021012833, 4060091821])) = ''ba7816bf8f01cfea414140de5dae2223b00361a396177a9cb410ff61f20015ad''"
  by (simp add: EncodeToString_def bePutUint32_def byte_def hextable_def upt_rec)

lemma sha_abc_digest: "EncodeToString (Sum256 ''abc'') = ''ba7816bf8f01cfea414140de5dae2223b00361a396177a9cb410ff61f20015ad''"
proof -
  have "length (pad256 ''abc'') div 64 = 1" by (simp add: sha_abc_pad)
  then have "[0..<length (pad256 ''abc'') div 64] = [0]" by simp
  then have "Sum256 ''abc'' = (case addDigest init256 (1349398616, 3550093669, 80891244, 3093179625, 1593118500, 4212265488, 2492278198, 2518632596) of
      (h0, h1, h2, h3, h4, h5, h6, h7) \<Rightarrow> concat (map bePutUint32 [h0, h1, h2, h3, h4, h5, h6, h7]))"
    by (simp add: Sum256_def Let_def block256_def sha_abc_pad sha_abc_words sha_abc_schedule
        sha_abc_rounds)
  moreover have "addDigest init256 (1349398616, 3550093669, 80891244, 3093179625, 1593118500, 4212265488, 2492278198, 2518632596) = (3128432319, 2399260650, 1094795486, 1571693091, 2953011619, 2518121116, 3021012833, 4060091821)"
    by (simp add: init256_def)
  ultimately have "Sum256 ''abc'' = concat (map bePutUint32 [3128432319, 2399260650, 1094795486, 1571693091, 2953011619, 2518121116, 3021012833, 4060091821])"
    by simp
  then show ?thesis by (simp only: sha_abc_final)
qed

lemma sha_hello_pad: "pad256 ''hello'' = [CHR 0x68, CHR 0x65, CHR 0x6C, CHR 0x6C, CHR 0x6F, CHR 0x80, CHR 0x00, CHR 0x00, CHR 0x00, CHR 0x00, CHR 0x00, CHR 0x00, CHR 0x00, CHR 0x00, CHR 0x00, CHR 0x00, CHR 0x00, CHR 0x00, CHR 0x00, CHR 0x00, CHR 0x00, CHR 0x00, CHR 0x00, CHR 0x00, CHR 0x00, CHR 0x00, CHR 0x00, CHR 0x00, CHR 0x00, CHR 0x00, CHR 0x00, CHR 0x00, CHR 0x00, CHR 0x00, CHR 0x00, CHR 0x00, CHR 0x00, CHR 0x00, CHR 0x00, CHR 0x00, CHR 0x00, CHR 0x00, CHR 0x00, CHR 0x00, CHR 0x00, CHR 0x00, CHR 0x00, CHR 0x00, CHR 0x00, CHR 0x00, CHR 0x00, CHR 0x00, CHR 0x00, CHR 0x00, CHR 0x00, CHR 0x00, CHR 0x00, CHR 0x00, CHR 0x00, CHR 0x00, CHR 0x00, CHR 0x00, CHR 0x00, CHR 0x28]"
  by (simp add: pad256_def bePutUint64_def byte_def upt_rec Let_def replicate_step char_of_eq_iff)

lemma sha_hello_words: "map (\<lambda>i. beUint32 (drop (4 * i) [CHR 0x68, CHR 0x65, CHR 0x6C, CHR 0x6C, CHR 0x6F, CHR 0x80, CHR 0x00, CHR 0x00, CHR 0x00, CHR 0x00, CHR 0x00, CHR 0x00, CHR 0x00, CHR 0x00, CHR 0x00, CHR 0x00, CHR 0x00, CHR 0x00, CHR 0x00, CHR 0x00, CHR 0x00, CHR 0x00, CHR 0x00, CHR 0x00, CHR 0x00, CHR 0x00, CHR 0x00, CHR 0x00, CHR 0x00, CHR 0x00, CHR 0x00, CHR 0x00, CHR 0x00, CHR 0x00, CHR 0x00, CHR 0x00, CHR 0x00, CHR 0x00, CHR 0x00, CHR 0x00, CHR 0x00, CHR 0x00, CHR 0x00, CHR 0x00, CHR 0x00, CHR 0x00, CHR 0x00, CHR 0x00, CHR 0x00, CHR 0x00, CHR 0x00, CHR 0x00, CHR 0x00, CHR 0x00, CHR 0x00, CHR 0x00, CHR 0x00, CHR 0x00, CHR 0x00, CHR 0x00, CHR 0x00, CHR 0x00, CHR 0x00, CHR 0x28])) [0..<16] = [1751477356, 1870659584, 0, 0, 0, 0, 0, 0, 0, 0, 0, 0, 0, 0, 0, 40]"
  by (simp add: beUint32_def upt_rec)

lemma sha_hello_schedule: "schedule [1751477356, 1870659584, 0, 0, 0, 0, 0, 0, 0, 0, 0, 0, 0, 0, 0, 40] 48 = [1751477356, 1870659584, 0, 0, 0, 0, 0, 0, 0, 0, 0, 0, 0, 0, 0, 40, 1972668492, 1871773696, 3576877402, 2686180986, 850623627, 2497315577, 3520615416, 3063633602, 2470970563, 2529655973, 2734245958, 2224506095, 568147562, 480471808, 1066760801, 544853894, 1811708987, 203464011, 573055580, 3994735195, 3318782032, 120789122, 2540970949, 2791823097, 3154398022, 2508558385, 1553517154, 1686506523, 2129119095, 382031986, 2096528681, 1213710648, 2743028353, 905510147, 4050648290, 1834262428, 2704274196, 4051799476, 4190818614, 3378566924, 974714360, 4127060666, 3885636394, 1575633733, 1880933106, 1016800738, 3378973474, 1044165985]"
  by (simp add: schedule_step rotr32 Let_def)

lemma sha_hello_rounds0: "foldl round256 (1779033703, 3144134277, 1013904242, 2773480762, 1359893119, 2600822924, 528734635, 1541459225) [(1116352408, 1751477356), (1899447441, 1870659584), (3049323471, 0), (3921009573, 0), (961987163, 0), (1508970993, 0), (2453635748, 0), (2870763221, 0)] = (1444544162, 1121502159, 994533581, 3422192454, 97466366, 2297449876, 3433641744, 2866623715)"
  by (simp add: rotr32)

lemma sha_hello_rounds1: "foldl round256 (1444544162, 1121502159, 994533581, 3422192454, 97466366, 2297449876, 3433641744, 2866623715) [(3624381080, 0), (310598401, 0), (607225278, 0), (1426881987, 0), (1925078388, 0), (2162078206, 0), (2614888103, 0), (3248222580, 40)] = (1438486882, 2373480070, 2571409171, 955628771, 3991488677, 2270398595, 1629398990, 3161904517)"
  by (simp add: rotr32)

lemma sha_hello_rounds2: "foldl round256 (1438486882, 2373480070, 2571409171, 955628771, 3991488677, 2270398595, 1629398990, 3161904517) [(3835390401, 1972668492), (4022224774, 1871773696), (264347078, 3576877402), (604807628, 2686180986), (770255983, 850623627), (1249150122, 2497315577), (1555081692, 3520615416), (1996064986, 3063633602)] = (362446465, 3187272834, 3051359827, 2685354175, 699275775, 1507552329, 1470090349, 2949119499)"
  by (simp add: rotr32)

lemma sha_hello_rounds3: "foldl round256 (362446465, 3187272834, 3051359827, 2685354175, 699275775, 1507552329, 1470090349, 2949119499) [(2554220882, 2470970563), (2821834349, 2529655973), (2952996808, 2734245958), (3210313671, 2224506095), (3336571891, 568147562), (3584528711, 480471808), (113926993, 1066760801), (338241895, 544853894)] = (54269935, 3293355928, 227864588, 3300521401, 1068809038, 2929041628, 372952974, 2584429638)"
  by (simp add: rotr32)

lemma sha_hello_rounds4: "foldl round256 (54269935, 3293355928, 227864588, 3300521401, 1068809038, 2929041628, 372952974, 2584429638) [(666307205, 1811708987), (773529912, 203464011), (1294757372, 573055580), (1396182291, 3994735195), (1695183700, 3318782032), (1986661051, 120789122), (2177026350, 2540970949), (2456956037, 2791823097)] = (1266721552, 2747499855, 3436145919, 2606004361, 4017571641, 1522850538, 2540629167, 2855049937)"
  by (simp add: rotr32)

lemma sha_hello_rounds5: "foldl round256 (1266721552, 2747499855, 3436145919, 2606004361, 4017571641, 1522850538, 2540629167, 2855049937) [(2730485921, 3154398022), (2820302411, 2508558385), (3259730800, 1553517154), (3345764771, 1686506523), (3516065817, 2129119095), (3600352804, 382031986), (4094571909, 2096528681), (275423344, 1213710648)] = (2460675856, 4125581249, 3071815410, 3659240867, 2297046025, 1614943882, 363631285, 810597556)"
  by (simp add: rotr32)

lemma sha_hello_rounds6: "foldl round256 (2460675856, 4125581249, 3071815410, 3659240867, 2297046025, 1614943882, 363631285, 810597556) [(430227734, 2743028353), (506948616, 905510147), (659060556, 4050648290), (883997877, 1834262428), (958139571, 2704274196), (1322822218, 4051799476), (1537002063, 4190818614), (1747873779, 3378566924)] = (861808445, 2826936815, 1524685734, 2502942766, 1302904525, 1599435502, 50401294, 3429452010)"
  by (simp add: rotr32)

lemma sha_hello_rounds7: "foldl round256 (861808445, 2826936815, 1524685734, 2502942766, 1302904525, 1599435502, 50401294, 3429452010) [(1955562222, 974714360), (2024104815, 4127060666), (2227730452, 3885636394), (2361852424, 1575633733), (2428436474, 1880933106), (2756734187, 1016800738), (3204031479, 3378973474), (3329325298, 1044165985)] = (3270010707, 2756244617, 3933816760, 543812964, 3389508573, 2225199570, 1400920503, 933939979)"
  by (simp add: rotr32)

lemma sha_hello_rounds: "foldl round256 init256 (zip K256 [1751477356, 1870659584, 0, 0, 0, 0, 0, 0, 0, 0, 0, 0, 0, 0, 0, 40, 1972668492, 1871773696, 3576877402, 2686180986, 850623627, 2497315577, 3520615416, 3063633602, 2470970563, 2529655973, 2734245958, 2224506095, 568147562, 480471808, 1066760801, 544853894, 1811708987, 203464011, 573055580, 3994735195, 3318782032, 120789122, 2540970949, 2791823097, 3154398022, 2508558385, 1553517154, 1686506523, 2129119095, 382031986, 2096528681, 1213710648, 2743028353, 905510147, 4050648290, 1834262428, 2704274196, 4051799476, 4190818614, 3378566924, 974714360, 4127060666, 3885636394, 1575633733, 1880933106, 1016800738, 3378973474, 1044165985]) = (3270010707, 2756244617, 3933816760, 543812964, 3389508573, 2225199570, 1400920503, 933939979)"
proof -
  have "zip K256 ([1751477356, 1870659584, 0, 0, 0, 0, 0, 0, 0, 0, 0, 0, 0, 0, 0, 40, 1972668492, 1871773696, 3576877402, 2686180986, 850623627, 2497315577, 3520615416, 3063633602, 2470970563, 2529655973, 2734245958, 2224506095, 568147562, 480471808, 1066760801, 544853894, 1811708987, 203464011, 573055580, 3994735195, 3318782032, 120789122, 2540970949, 2791823097, 3154398022, 2508558385, 1553517154, 1686506523, 2129119095, 382031986, 2096528681, 1213710648, 2743028353, 905510147, 4050648290, 1834262428, 2704274196, 4051799476, 4190818614, 3378566924, 974714360, 4127060666, 3885636394, 1575633733, 1880933106, 1016800738, 3378973474, 1044165985] :: u32 list) = [(1116352408, 1751477356), (1899447441, 1870659584), (3049323471, 0), (3921009573, 0), (961987163, 0), (1508970993, 0), (2453635748, 0), (2870763221, 0)] @ [(3624381080, 0), (310598401, 0), (607225278, 0), (1426881987, 0), (1925078388, 0), (2162078206, 0), (2614888103, 0), (3248222580, 40)] @ [(3835390401, 1972668492), (4022224774, 1871773696), (264347078, 3576877402), (604807628, 2686180986), (770255983, 850623627), (1249150122, 2497315577), (1555081692, 3520615416), (1996064986, 3063633602)] @ [(2554220882, 2470970563), (2821834349, 2529655973), (2952996808, 2734245958), (3210313671, 2224506095), (3336571891, 568147562), (3584528711, 480471808), (113926993, 1066760801), (338241895, 544853894)] @ [(666307205, 1811708987), (773529912, 203464011), (1294757372, 573055580), (1396182291, 3994735195), (1695183700, 3318782032), (1986661051, 120789122), (2177026350, 2540970949), (2456956037, 2791823097)] @ [(2730485921, 3154398022), (2820302411, 2508558385), (3259730800, 1553517154), (3345764771, 1686506523), (3516065817, 2129119095), (3600352804, 382031986), (4094571909, 2096528681), (275423344, 1213710648)] @ [(430227734, 2743028353), (506948616, 905510147), (659060556, 4050648290), (883997877, 1834262428), (958139571, 2704274196), (1322822218, 4051799476), (1537002063, 4190818614), (1747873779, 3378566924)] @ [(1955562222, 974714360), (2024104815, 4127060666), (2227730452, 3885636394), (2361852424, 1575633733), (2428436474, 1880933106), (2756734187, 1016800738), (3204031479, 3378973474), (3329325298, 1044165985)]"
    by (simp add: K256_def)
  then show ?thesis
    by (simp only: foldl_append init256_def sha_hello_rounds0 sha_hello_rounds1 sha_hello_rounds2 sha_hello_rounds3 sha_hello_rounds4 sha_hello_rounds5 sha_hello_rounds6 sha_hello_rounds7)
qed

lemma sha_hello_final: "EncodeToString (concat (map bePutUint32 [754077114, 1605411598, 652753706, 3317293726, 454434396, 531055198, 1929655138, 2475399204])) = ''2cf24dba5fb0a30e26e83b2ac5b9e29e1b161e5c1fa7425e73043362938b9824''"
  by (simp add: EncodeToString_def bePutUint32_def byte_def hextable_def upt_rec)

lemma sha_hello_digest: "EncodeToString (Sum256 ''hello'') = ''2cf24dba5fb0a30e26e83b2ac5b9e29e1b161e5c1fa7425e73043362938b9824''"
proof -
  have "length (pad256 ''hello'') div 64 = 1" by (simp add: sha_hello_pad)
  then have "[0..<length (pad256 ''hello'') div 64] = [0]" by simp
  then have "Sum256 ''hello'' = (case addDigest init256 (3270010707, 2756244617, 3933816760, 543812964, 3389508573, 2225199570, 1400920503, 933939979) of
      (h0, h1, h2, h3, h4, h5, h6, h7) \<Rightarrow> concat (map bePutUint32 [h0, h1, h2, h3, h4, h5, h6, h7]))"
    by (simp add: Sum256_def Let_def block256_def sha_hello_pad sha_hello_words sha_hello_schedule
        sha_hello_rounds)
  moreover have "addDigest init256 (3270010707, 2756244617, 3933816760, 543812964, 3389508573, 2225199570, 1400920503, 933939979) = (754077114, 1605411598, 652753706, 3317293726, 454434396, 531055198, 1929655138, 2475399204)"
    by (simp add: init256_def)
  ultimately have "Sum256 ''hello'' = concat (map bePutUint32 [754077114, 1605411598, 652753706, 3317293726, 454434396, 531055198, 1929655138, 2475399204])"
    by simp
  then show ?thesis by (simp only: sha_hello_final)
qed

text \<open>
  Claim C3.  In hash mode, when generate mode has written the \<open>.hash\<close> file of a test
  (verdict \<open>GEN\<close>) from an output of the program, the file holds the SHA-256 digest of
  that output in lower-case hexadecimal: 64 characters out of \<open>0123456789abcdef\<close>, for
  the output \<open>abc\<close> the digest of the standard.  A later check of the same test on that
  file system, in which the program succeeds with the same output and the \<open>.hash\<close> file
  can be opened, has verdict \<open>AC\<close>.
\<close>

theorem hash_round_trip:
  assumes "generate fl" and "useHash fl"
    and "report (runTest fl ev prog st f) = report st @ [(f, GEN)]"
    and "readFile (fsys st) f = Inr input"
    and "\<not> generate fl'" and "useHash fl'"
    and "fsys st' = fsys (runTest fl ev prog st f)"
    and "openErr (fsys st') (outputFile f True) = None"
    and "executeProgram ev' (fsys st') (execCalls st') prog' f (timeout fl') True = (actual, t', None)"
    and "readFile (fsys st') f = Inr input'"
    and "stdout (spawn ev' (execCalls st') prog' input' (timeout fl'))
           = stdout (spawn ev (execCalls st) prog input (timeout fl))"
    and "out = stdout (spawn ev (execCalls st) prog input (timeout fl))"
  shows "contents (fsys st') (outputFile f True) = Some (EncodeToString (Sum256 out))
         \<and> length (EncodeToString (Sum256 out)) = 64
         \<and> set (EncodeToString (Sum256 out)) \<subseteq> set ''0123456789abcdef''
         \<and> EncodeToString (Sum256 ''abc'')
             = ''ba7816bf8f01cfea414140de5dae2223b00361a396177a9cb410ff61f20015ad''
         \<and> report (runTest fl' ev' prog' st' f) = report st' @ [(f, AC)]"
proof -
  let ?out = "EncodeToString (Sum256 out)"
  from assms(1,3) have "report (generateTest fl ev prog st f) = report st @ [(f, GEN)]"
    by (simp add: runTest_def)
  from generateTest_GEN [OF this] obtain out1 t
    where ex: "executeProgram ev (fsys st) (execCalls st) prog f (timeout fl) (useHash fl)
                 = (out1, t, None)"
      and wr: "contents (fsys (generateTest fl ev prog st f)) (outputFile f (useHash fl)) = Some out1"
    by blast
  have out: "out1 = ?out"
    using ex assms(2,4,12) executeProgram_hash_success [of ev "fsys st" "execCalls st" prog f
        "timeout fl" out1 t input] by simp
  have c: "contents (fsys st') (outputFile f True) = Some ?out"
    using wr out assms(1,2,7) by (simp add: runTest_def)
  have expected: "readFile (fsys st') (outputFile f True) = Inr ?out"
    using c assms(8) by (rule readFile_hex)
  have actual: "actual = ?out"
    using assms(9,10,11,12) executeProgram_hash_success [of ev' "fsys st'" "execCalls st'" prog' f
        "timeout fl'" actual t' input'] by simp
  have "checkTest fl' ev' prog' st' f =
          say f AC (st'\<lparr>totalExecutionTime := totalExecutionTime st' + t',
                        execCalls := Suc (execCalls st'),
                        passedTests := Suc (passedTests st')\<rparr>)"
    using checkTest_verdict [of ev' st' prog' f fl' actual t' ?out] assms(6,9) expected actual
    by simp
  then have r: "report (runTest fl' ev' prog' st' f) = report st' @ [(f, AC)]"
    using assms(5) by (simp add: runTest_def say_def)
  have l: "length ?out = 64" by (simp add: length_EncodeToString length_Sum256)
  have h: "set ?out \<subseteq> set ''0123456789abcdef''"
    using set_EncodeToString [of "Sum256 out"] by (simp add: hextable_def)
  from c l h r sha_abc_digest show ?thesis by blast
qed

theorem hash_round_trip_witness:
  "generate hashGenerateFlags \<and> useHash hashGenerateFlags
   \<and> report (runTest hashGenerateFlags echoEnv ''./p'' (start (disk [(''a.in'', ''hello'')])) ''a.in'')
       = [(''a.in'', GEN)]
   \<and> \<not> generate hashCheckFlags \<and> useHash hashCheckFlags
   \<and> contents (fsys (runTest hashGenerateFlags echoEnv ''./p'' (start (disk [(''a.in'', ''hello'')]))
         ''a.in'')) ''a.hash''
       = Some ''2cf24dba5fb0a30e26e83b2ac5b9e29e1b161e5c1fa7425e73043362938b9824''
   \<and> report (runTest hashCheckFlags echoEnv ''./p''
         (start (fsys (runTest hashGenerateFlags echoEnv ''./p'' (start (disk [(''a.in'', ''hello'')]))
            ''a.in''))) ''a.in'')
       = [(''a.in'', AC)]"
  using hash_round_trip [of hashGenerateFlags echoEnv "''./p''" "start (disk [(''a.in'', ''hello'')])"
      "''a.in''" "''hello''" hashCheckFlags
      "start (fsys (runTest hashGenerateFlags echoEnv ''./p'' (start (disk [(''a.in'', ''hello'')]))
         ''a.in''))"
      echoEnv "''./p''" "EncodeToString (Sum256 ''hello'')" 5000000 "''hello''" "''hello''"]
  by (simp add: world_defs file_defs runTest_def
      generateTest_def execute_def executeProgram_def hashOutput_def cmdWait_def say_def start_def
      outputFile_def expectedExt_def sha_hello_digest)

subsection \<open>Generate mode leaves existing files alone\<close>

lemma runTest_says: "\<exists>v. report (runTest fl ev prog st f) = report st @ [(f, v)]"
  by (auto simp add: runTest_def generateTest_def checkTest_def execute_def say_def
      sayExecError_def Let_def
      split: prod.splits option.splits sum.splits execError.splits)

lemma generateTest_skip:
  assumes "\<not> forceGen fl" and "osStat (fsys st) (outputFile f (useHash fl)) \<noteq> StatNotExist"
  shows "generateTest fl ev prog st f = say f SKIP (st\<lparr>passedTests := Suc (passedTests st)\<rparr>)"
  using assms by (simp add: generateTest_def IsNotExist_def)

lemma writeFile_statErr: "statErr (fst (writeFile fs name c)) = statErr fs"
  by (simp add: writeFile_def split: option.splits)

lemma writeFile_contents_other:
  "name' \<noteq> name \<Longrightarrow> contents (fst (writeFile fs name c)) name' = contents fs name'"
  by (simp add: writeFile_def split: option.splits)

lemma writeFile_contents_some:
  "contents fs name' \<noteq> None \<Longrightarrow> contents (fst (writeFile fs name c)) name' \<noteq> None"
  by (simp add: writeFile_def split: option.splits)

lemma generateTest_fsys:
  "fsys (generateTest fl ev prog st f) = fsys st
   \<or> ((IsNotExist (osStat (fsys st) (outputFile f (useHash fl))) \<or> forceGen fl)
       \<and> (\<exists>c. fsys (generateTest fl ev prog st f)
                 = fst (writeFile (fsys st) (outputFile f (useHash fl)) c)))"
  by (auto simp add: generateTest_def execute_def say_def sayExecError_def Let_def
      split: prod.splits option.splits execError.splits)
    (metis fst_conv)+

lemma generateTest_keeps:
  assumes "\<not> forceGen fl" and "contents (fsys st) name = Some c"
  shows "contents (fsys (generateTest fl ev prog st f)) name = Some c"
proof -
  from generateTest_fsys [of fl ev prog st f]
  show ?thesis
  proof
    assume "fsys (generateTest fl ev prog st f) = fsys st"
    with assms(2) show ?thesis by simp
  next
    assume h: "(IsNotExist (osStat (fsys st) (outputFile f (useHash fl))) \<or> forceGen fl)
       \<and> (\<exists>c. fsys (generateTest fl ev prog st f)
                 = fst (writeFile (fsys st) (outputFile f (useHash fl)) c))"
    with assms(1) have "contents (fsys st) (outputFile f (useHash fl)) = None"
      by (auto simp add: IsNotExist_def osStat_def split: option.splits)
    with assms(2) have "name \<noteq> outputFile f (useHash fl)" by auto
    with h assms(2) show ?thesis by (auto simp add: writeFile_contents_other)
  qed
qed

lemma generateTest_present:
  assumes "osStat (fsys st) name \<noteq> StatNotExist"
  shows "osStat (fsys (generateTest fl ev prog st f)) name \<noteq> StatNotExist"
proof -
  from generateTest_fsys [of fl ev prog st f]
  show ?thesis
  proof
    assume "fsys (generateTest fl ev prog st f) = fsys st"
    with assms show ?thesis by simp
  next
    assume "(IsNotExist (osStat (fsys st) (outputFile f (useHash fl))) \<or> forceGen fl)
       \<and> (\<exists>c. fsys (generateTest fl ev prog st f)
                 = fst (writeFile (fsys st) (outputFile f (useHash fl)) c))"
    then obtain c where e: "fsys (generateTest fl ev prog st f)
        = fst (writeFile (fsys st) (outputFile f (useHash fl)) c)" by blast
    show ?thesis
      using assms writeFile_contents_some [of "fsys st" name "outputFile f (useHash fl)" c]
      unfolding e by (auto simp add: osStat_def writeFile_statErr split: option.splits)
  qed
qed

lemma generateTest_done_present:
  assumes "report (generateTest fl ev prog st f) = report st @ [(f, v)]" and "v = GEN \<or> v = SKIP"
  shows "osStat (fsys (generateTest fl ev prog st f)) (outputFile f (useHash fl)) \<noteq> StatNotExist"
proof (cases "IsNotExist (osStat (fsys st) (outputFile f (useHash fl))) \<or> forceGen fl")
  case False
  then show ?thesis by (simp add: generateTest_def IsNotExist_def say_def)
next
  case True
  with assms have "v = GEN"
    by (auto simp add: generateTest_def execute_def say_def sayExecError_def Let_def
        split: prod.splits option.splits execError.splits)
  with assms(1) obtain out where
    "contents (fsys (generateTest fl ev prog st f)) (outputFile f (useHash fl)) = Some out"
    using generateTest_GEN [of fl ev prog st f] by blast
  then show ?thesis by (simp add: osStat_def split: option.splits)
qed


lemma runTest_generate: "generate fl \<Longrightarrow> runTest fl ev prog = generateTest fl ev prog"
  by (intro ext) (simp add: runTest_def)

lemma generateTest_says: "\<exists>v. report (generateTest fl ev prog st f) = report st @ [(f, v)]"
  by (auto simp add: generateTest_def execute_def say_def sayExecError_def Let_def
      split: prod.splits option.splits execError.splits)

lemma generate_all_keeps:
  assumes "\<not> forceGen fl"
  shows "contents (fsys st) name = Some c \<Longrightarrow>
         contents (fsys (foldl (generateTest fl ev prog) st files)) name = Some c"
  by (induction files arbitrary: st) (simp_all add: generateTest_keeps [OF assms])

lemma generate_all_present:
  "osStat (fsys st) name \<noteq> StatNotExist \<Longrightarrow>
   osStat (fsys (foldl (generateTest fl ev prog) st files)) name \<noteq> StatNotExist"
  by (induction files arbitrary: st) (simp_all add: generateTest_present)

lemma generate_all_done_present:
  "\<exists>rs. report (foldl (generateTest fl ev prog) st files) = report st @ rs
        \<and> length rs = length files
        \<and> (\<forall>i<length files. snd (rs ! i) = GEN \<or> snd (rs ! i) = SKIP \<longrightarrow>
              osStat (fsys (foldl (generateTest fl ev prog) st files))
                (outputFile (files ! i) (useHash fl)) \<noteq> StatNotExist)"
proof (induction files arbitrary: st)
  case Nil
  show ?case by simp
next
  case (Cons f files)
  let ?st1 = "generateTest fl ev prog st f"
  let ?end = "foldl (generateTest fl ev prog) ?st1 files"
  obtain v where v: "report ?st1 = report st @ [(f, v)]"
    using generateTest_says by blast
  from Cons.IH [of ?st1] obtain rs where rs: "report ?end = report ?st1 @ rs"
    and len: "length rs = length files"
    and ih: "\<forall>i<length files. snd (rs ! i) = GEN \<or> snd (rs ! i) = SKIP \<longrightarrow>
              osStat (fsys ?end) (outputFile (files ! i) (useHash fl)) \<noteq> StatNotExist"
    by blast
  have "\<forall>i<length (f # files). snd (((f, v) # rs) ! i) = GEN \<or> snd (((f, v) # rs) ! i) = SKIP \<longrightarrow>
          osStat (fsys ?end) (outputFile ((f # files) ! i) (useHash fl)) \<noteq> StatNotExist"
  proof (intro allI impI)
    fix i
    assume i: "i < length (f # files)"
      and d: "snd (((f, v) # rs) ! i) = GEN \<or> snd (((f, v) # rs) ! i) = SKIP"
    show "osStat (fsys ?end) (outputFile ((f # files) ! i) (useHash fl)) \<noteq> StatNotExist"
    proof (cases i)
      case 0
      with d have "v = GEN \<or> v = SKIP" by simp
      with v have "osStat (fsys ?st1) (outputFile f (useHash fl)) \<noteq> StatNotExist"
        by (rule generateTest_done_present)
      then show ?thesis using 0 by (simp add: generate_all_present)
    next
      case (Suc j)
      with i have "j < length files" by simp
      moreover from Suc d have "snd (rs ! j) = GEN \<or> snd (rs ! j) = SKIP" by simp
      ultimately have "osStat (fsys ?end) (outputFile (files ! j) (useHash fl)) \<noteq> StatNotExist"
        using ih by blast
      with Suc show ?thesis by simp
    qed
  qed
  moreover have "report (foldl (generateTest fl ev prog) st (f # files)) = report st @ (f, v) # rs"
    using rs v by simp
  moreover have "length ((f, v) # rs) = length (f # files)" using len by simp
  ultimately show ?case by (metis foldl.simps(2))
qed

lemma generate_all_skips:
  assumes "\<not> forceGen fl"
  shows "\<exists>rs. report (foldl (generateTest fl ev prog) st files) = report st @ rs
        \<and> length rs = length files
        \<and> (\<forall>i<length files.
              osStat (fsys st) (outputFile (files ! i) (useHash fl)) \<noteq> StatNotExist \<longrightarrow>
              rs ! i = (files ! i, SKIP))"
proof (induction files arbitrary: st)
  case Nil
  show ?case by simp
next
  case (Cons f files)
  let ?st1 = "generateTest fl ev prog st f"
  let ?end = "foldl (generateTest fl ev prog) ?st1 files"
  obtain v where v: "report ?st1 = report st @ [(f, v)]"
    using generateTest_says by blast
  from Cons.IH [of ?st1] obtain rs where rs: "report ?end = report ?st1 @ rs"
    and len: "length rs = length files"
    and ih: "\<forall>i<length files.
              osStat (fsys ?st1) (outputFile (files ! i) (useHash fl)) \<noteq> StatNotExist \<longrightarrow>
              rs ! i = (files ! i, SKIP)"
    by blast
  have "\<forall>i<length (f # files).
          osStat (fsys st) (outputFile ((f # files) ! i) (useHash fl)) \<noteq> StatNotExist \<longrightarrow>
          ((f, v) # rs) ! i = ((f # files) ! i, SKIP)"
  proof (intro allI impI)
    fix i
    assume i: "i < length (f # files)"
      and p: "osStat (fsys st) (outputFile ((f # files) ! i) (useHash fl)) \<noteq> StatNotExist"
    show "((f, v) # rs) ! i = ((f # files) ! i, SKIP)"
    proof (cases i)
      case 0
      with p have "?st1 = say f SKIP (st\<lparr>passedTests := Suc (passedTests st)\<rparr>)"
        using generateTest_skip [OF assms] by simp
      with v have "v = SKIP" by (simp add: say_def)
      with 0 show ?thesis by simp
    next
      case (Suc j)
      with p have "osStat (fsys ?st1) (outputFile (files ! j) (useHash fl)) \<noteq> StatNotExist"
        by (simp add: generateTest_present)
      with Suc i ih show ?thesis by simp
    qed
  qed
  moreover have "report (foldl (generateTest fl ev prog) st (f # files)) = report st @ (f, v) # rs"
    using rs v by simp
  moreover have "length ((f, v) # rs) = length (f # files)" using len by simp
  ultimately show ?case by (metis foldl.simps(2))
qed

text \<open>
  Claim C4, as stated, fails in its last part: a test whose execution failed in the
  first run has no expected-output file, so the second run executes it again and does
  not report \<open>SKIP\<close>.
\<close>

theorem generate_twice_counterexample:
  "flagParse failEnv defaultFlags [''-g'', ''./p'', ''*.in''] = Parsed generateFlags [''./p'', ''*.in'']
   \<and> generate generateFlags \<and> \<not> forceGen generateFlags
   \<and> report (final (main failEnv
        (fsys (final (main failEnv (disk [(''a.in'', ''3'' @ [LF])]) [''-g'', ''./p'', ''*.in''])))
        [''-g'', ''./p'', ''*.in'']))
     = [(''a.in'', ERR ''executing program: program execution failed: exit status 1'')]"
  by (simp add: world_defs file_defs driver_defs flag_defs)

text \<open>
  Claim C4, amended.  In generate mode without \<open>-f\<close>, a test whose expected-output file
  exists is reported \<open>SKIP\<close> and counted as already existing, the executor is not called
  and the file system is unchanged.  Consequently, when generate mode runs twice without
  \<open>-f\<close> on the same input files, every test with verdict \<open>GEN\<close> or \<open>SKIP\<close> in the first
  run has verdict \<open>SKIP\<close> in the second, and the second run changes no file that exists
  after the first.
\<close>

theorem generate_skips_existing:
  assumes "generate fl" and "\<not> forceGen fl"
    and "first = runTests fl ev prog (start fs) files"
    and "second = runTests fl ev' prog' (start (fsys first)) files"
  shows "(\<forall>st f c. contents (fsys st) (outputFile f (useHash fl)) = Some c \<longrightarrow>
            report (runTest fl ev prog st f) = report st @ [(f, SKIP)]
            \<and> passedTests (runTest fl ev prog st f) = Suc (passedTests st)
            \<and> execCalls (runTest fl ev prog st f) = execCalls st
            \<and> fsys (runTest fl ev prog st f) = fsys st)
         \<and> length (report first) = length files \<and> length (report second) = length files
         \<and> (\<forall>i<length files. snd (report first ! i) = GEN \<or> snd (report first ! i) = SKIP \<longrightarrow>
               report second ! i = (files ! i, SKIP))
         \<and> (\<forall>name c. contents (fsys first) name = Some c \<longrightarrow> contents (fsys second) name = Some c)"
proof -
  have a: "\<forall>st f c. contents (fsys st) (outputFile f (useHash fl)) = Some c \<longrightarrow>
            report (runTest fl ev prog st f) = report st @ [(f, SKIP)]
            \<and> passedTests (runTest fl ev prog st f) = Suc (passedTests st)
            \<and> execCalls (runTest fl ev prog st f) = execCalls st
            \<and> fsys (runTest fl ev prog st f) = fsys st"
  proof (intro allI impI)
    fix st :: run and f c
    assume "contents (fsys st) (outputFile f (useHash fl)) = Some c"
    then have "osStat (fsys st) (outputFile f (useHash fl)) \<noteq> StatNotExist"
      by (simp add: osStat_def split: option.splits)
    then have "runTest fl ev prog st f = say f SKIP (st\<lparr>passedTests := Suc (passedTests st)\<rparr>)"
      using assms(1,2) by (simp add: runTest_def generateTest_skip)
    then show "report (runTest fl ev prog st f) = report st @ [(f, SKIP)]
            \<and> passedTests (runTest fl ev prog st f) = Suc (passedTests st)
            \<and> execCalls (runTest fl ev prog st f) = execCalls st
            \<and> fsys (runTest fl ev prog st f) = fsys st"
      by (simp add: say_def)
  qed
  have f1: "first = foldl (generateTest fl ev prog) (start fs) files"
    using assms(1,3) by (simp add: runTests_def runTest_generate)
  have f2: "second = foldl (generateTest fl ev' prog') (start (fsys first)) files"
    using assms(1,4) by (simp add: runTests_def runTest_generate)
  from generate_all_done_present [of fl ev prog "start fs" files]
  obtain rs1 where r1: "report first = rs1" and l1: "length rs1 = length files"
    and p1: "\<forall>i<length files. snd (rs1 ! i) = GEN \<or> snd (rs1 ! i) = SKIP \<longrightarrow>
              osStat (fsys first) (outputFile (files ! i) (useHash fl)) \<noteq> StatNotExist"
    unfolding f1 [symmetric] by (auto simp add: start_def)
  from generate_all_skips [OF assms(2), of ev' prog' "start (fsys first)" files]
  obtain rs2 where r2: "report second = rs2" and l2: "length rs2 = length files"
    and p2: "\<forall>i<length files.
              osStat (fsys first) (outputFile (files ! i) (useHash fl)) \<noteq> StatNotExist \<longrightarrow>
              rs2 ! i = (files ! i, SKIP)"
    unfolding f2 [symmetric] by (auto simp add: start_def)
  have b: "\<forall>i<length files. snd (report first ! i) = GEN \<or> snd (report first ! i) = SKIP \<longrightarrow>
               report second ! i = (files ! i, SKIP)"
    using p1 p2 r1 r2 by blast
  have c: "\<forall>name c. contents (fsys first) name = Some c \<longrightarrow> contents (fsys second) name = Some c"
    unfolding f2 using generate_all_keeps [OF assms(2), of "start (fsys first)"]
    by (simp add: start_def)
  from a b c r1 r2 l1 l2 show ?thesis by blast
qed


theorem generate_skips_existing_witness:
  "generate generateFlags \<and> \<not> forceGen generateFlags
   \<and> report (runTests generateFlags echoEnv ''./p''
        (start (disk [(''a.in'', ''3'' @ [LF]), (''b.in'', ''5''), (''b.out'', ''4'')]))
        [''a.in'', ''b.in''])
       = [(''a.in'', GEN), (''b.in'', SKIP)]
   \<and> report (runTests generateFlags hangEnv ''./p''
        (start (fsys (runTests generateFlags echoEnv ''./p''
           (start (disk [(''a.in'', ''3'' @ [LF]), (''b.in'', ''5''), (''b.out'', ''4'')]))
           [''a.in'', ''b.in''])))
        [''a.in'', ''b.in''])
       = [(''a.in'', SKIP), (''b.in'', SKIP)]
   \<and> contents (fsys (runTests generateFlags hangEnv ''./p''
        (start (fsys (runTests generateFlags echoEnv ''./p''
           (start (disk [(''a.in'', ''3'' @ [LF]), (''b.in'', ''5''), (''b.out'', ''4'')]))
           [''a.in'', ''b.in''])))
        [''a.in'', ''b.in''])) ''b.out'' = Some ''4''"
  using generate_skips_existing [of generateFlags
      "runTests generateFlags echoEnv ''./p''
        (start (disk [(''a.in'', ''3'' @ [LF]), (''b.in'', ''5''), (''b.out'', ''4'')]))
        [''a.in'', ''b.in'']"
      echoEnv "''./p''" "disk [(''a.in'', ''3'' @ [LF]), (''b.in'', ''5''), (''b.out'', ''4'')]"
      "[''a.in'', ''b.in'']"
      "runTests generateFlags hangEnv ''./p''
        (start (fsys (runTests generateFlags echoEnv ''./p''
           (start (disk [(''a.in'', ''3'' @ [LF]), (''b.in'', ''5''), (''b.out'', ''4'')]))
           [''a.in'', ''b.in''])))
        [''a.in'', ''b.in'']"
      hangEnv "''./p''"]
  by (simp add: world_defs file_defs driver_defs)


end
